theory Spec2Isabelle
  imports Complex_Main "HOL-Library.Word" "HOL-Library.AList"
begin

section \<open>The search result model of bleve: search.go and the memory tracker\<close>

text \<open>
  The development follows \<^verbatim>\<open>search/search.go\<close> and the file that declares
  \<^verbatim>\<open>MemTracker\<close>. Conventions of the embedding:
  \<^item> a Go panic is the left summand of a result, \<open>panic + 'a\<close>;
  \<^item> a pointer is \<open>nat option\<close>: \<open>None\<close> is Go's \<^verbatim>\<open>nil\<close>, \<open>Some a\<close> the object
    at address \<open>a\<close> of a heap, a function from addresses to objects (Go has no
    dangling pointers, so every address holds an object);
  \<^item> a Go map held by value is an optional association list, \<open>None\<close> being the
    nil map; the list holds the entries in the order a \<^verbatim>\<open>range\<close> visits them;
  \<^item> \<^verbatim>\<open>uint64\<close> is \<open>64 word\<close>; Go's \<^verbatim>\<open>int\<close> is \<open>'w word\<close>, where \<open>'w\<close> is the width of
    \<^verbatim>\<open>int\<close> on the platform (32 or 64): \<open>+\<close> and \<open>*\<close> wrap around as in Go, and \<open>sint\<close>
    reads the signed value.
\<close>

datatype panic = NilDereference | IndexOutOfRange | NilMapAssignment

type_synonym uint64 = "64 word"

type_synonym ref = "nat option"

subsection \<open>ArrayPositions\<close>

type_synonym ArrayPositions = "uint64 list"

text \<open>The loop \<^verbatim>\<open>for i := range ap\<close> of \<^verbatim>\<open>Equals\<close>, from index \<open>i\<close> on.\<close>

function Equals_loop :: "ArrayPositions \<Rightarrow> ArrayPositions \<Rightarrow> nat \<Rightarrow> bool" where
  "Equals_loop ap other i =
     (if i < length ap
      then (if ap ! i \<noteq> other ! i then False else Equals_loop ap other (Suc i))
      else True)"
  by pat_completeness auto
termination
  by (relation "measure (\<lambda>(ap, other, i). length ap - i)") auto

declare Equals_loop.simps [simp del]

definition Equals :: "ArrayPositions \<Rightarrow> ArrayPositions \<Rightarrow> bool" where
  "Equals ap other =
     (if length ap \<noteq> length other then False else Equals_loop ap other 0)"

subsection \<open>MemTracker\<close>

record MemTracker =
  bytes :: uint64

text \<open>
  The trackers live in a heap of their own. \<open>mt_next\<close> is the first address that
  \<^verbatim>\<open>NewMemTracker\<close> has not handed out yet.
\<close>

record mt_heap =
  mt_cells :: "nat \<Rightarrow> MemTracker"
  mt_next :: nat

definition NewMemTracker :: "mt_heap \<Rightarrow> ref \<times> mt_heap" where
  "NewMemTracker h =
     (Some (mt_next h),
      h\<lparr>mt_cells := (mt_cells h)(mt_next h := \<lparr>bytes = 0\<rparr>), mt_next := Suc (mt_next h)\<rparr>)"

definition Add :: "mt_heap \<Rightarrow> ref \<Rightarrow> uint64 \<Rightarrow> panic + mt_heap" where
  "Add h m add =
     (case m of
        None \<Rightarrow> Inl NilDereference
      | Some a \<Rightarrow>
          Inr (h\<lparr>mt_cells := (mt_cells h)(a := (mt_cells h a)\<lparr>bytes := bytes (mt_cells h a) + add\<rparr>)\<rparr>))"

definition Usage :: "mt_heap \<Rightarrow> ref \<Rightarrow> panic + uint64" where
  "Usage h m =
     (case m of
        None \<Rightarrow> Inl NilDereference
      | Some a \<Rightarrow> Inr (bytes (mt_cells h a)))"

text \<open>A caller's sequence of \<^verbatim>\<open>Add\<close> calls, each on some tracker, in program order.\<close>

fun Add_calls :: "mt_heap \<Rightarrow> (ref \<times> uint64) list \<Rightarrow> panic + mt_heap" where
  "Add_calls h [] = Inr h"
| "Add_calls h ((m, n) # calls) =
     (case Add h m n of Inl e \<Rightarrow> Inl e | Inr h' \<Rightarrow> Add_calls h' calls)"

text \<open>What \<^verbatim>\<open>Usage\<close> returns on tracker \<open>m\<close> after the calls; the heap before any tracker.\<close>

definition Usage_after :: "mt_heap \<Rightarrow> (ref \<times> uint64) list \<Rightarrow> ref \<Rightarrow> panic + uint64" where
  "Usage_after h calls m = (case Add_calls h calls of Inl e \<Rightarrow> Inl e | Inr h' \<Rightarrow> Usage h' m)"

definition mt_empty :: mt_heap where
  "mt_empty = \<lparr>mt_cells = (\<lambda>_. \<lparr>bytes = 0\<rparr>), mt_next = 0\<rparr>"

subsection \<open>Sizes of the platform and the table of heap overheads\<close>

text \<open>
  The constants \<^verbatim>\<open>index.SizeOf...\<close> and the results of \<^verbatim>\<open>reflect.TypeOf(x).Size()\<close>
  are fixed by the Go platform, outside these sources; they are parameters.
  \<open>reflect_Size p ''T''\<close> is the size \<^verbatim>\<open>reflect\<close> reports for the type \<^verbatim>\<open>T\<close>.
\<close>

record (overloaded) 'w platform =
  SizeOfPointer :: "'w word"
  SizeOfString :: "'w word"
  SizeOfSlice :: "'w word"
  SizeOfInterface :: "'w word"
  SizeOfUint64 :: "'w word"
  reflect_Size :: "string \<Rightarrow> 'w word"

text \<open>The sizes of a 64-bit target, for concrete runs.\<close>

definition amd64 :: "64 platform" where
  "amd64 =
     \<lparr>SizeOfPointer = 8, SizeOfString = 16, SizeOfSlice = 24, SizeOfInterface = 16,
      SizeOfUint64 = 8,
      reflect_Size = (\<lambda>t.
        if t = ''SearchContext'' then 8
        else if t = ''DocumentMatchPool'' then 32
        else if t = ''DocumentMatchCollection'' then 24
        else if t = ''DocumentMatch'' then 136
        else if t = ''TermLocationMap'' then 8
        else if t = ''Location'' then 48
        else if t = ''Document'' then 64
        else if t = ''CompositeField'' then 64
        else if t = ''SearcherOptions'' then 2
        else 0)\<rparr>"

text \<open>
  \<^verbatim>\<open>HeapOverhead\<close> is a \<^verbatim>\<open>map[string]int\<close> that \<^verbatim>\<open>init\<close> fills once, key by key.
  Reading a key that is not in a Go map gives the zero value.
\<close>

definition init :: "'w::len platform \<Rightarrow> (string \<times> 'w word) list" where
  "init p =
     [(''SearchContext'', reflect_Size p ''SearchContext'' + SizeOfPointer p),
      (''DocumentMatchPool'', reflect_Size p ''DocumentMatchPool'' + SizeOfPointer p),
      (''DocumentMatchCollection'', reflect_Size p ''DocumentMatchCollection''),
      (''DocumentMatch'', reflect_Size p ''DocumentMatch'' + SizeOfPointer p),
      (''TermLocationMap'', reflect_Size p ''TermLocationMap''),
      (''Location'', reflect_Size p ''Location'' + SizeOfPointer p),
      (''Document'', reflect_Size p ''Document'' + SizeOfPointer p),
      (''CompositeField'', reflect_Size p ''CompositeField'' + SizeOfPointer p),
      (''SearcherOptions'', reflect_Size p ''SearcherOptions'' + SizeOfPointer p)]"

definition HeapOverhead :: "'w::len platform \<Rightarrow> string \<Rightarrow> 'w word" where
  "HeapOverhead p key = (case map_of (init p) key of None \<Rightarrow> 0 | Some n \<Rightarrow> n)"

text \<open>
  On every platform a \<^verbatim>\<open>Location\<close> has a positive overhead, and the sizes of a string
  header, a slice header and a \<^verbatim>\<open>uint64\<close> are not negative.
\<close>

definition platform_ok :: "'w::len platform \<Rightarrow> bool" where
  "platform_ok p \<longleftrightarrow>
     0 < sint (HeapOverhead p ''Location'') \<and> 0 \<le> sint (SizeOfString p) \<and>
     0 \<le> sint (SizeOfSlice p) \<and> 0 \<le> sint (SizeOfUint64 p)"

subsection \<open>Go values: maps, slices, float64, interface values\<close>

type_synonym ('k, 'v) gomap = "('k \<times> 'v) list option"

definition entries :: "('k, 'v) gomap \<Rightarrow> ('k \<times> 'v) list" where
  "entries m = (case m of None \<Rightarrow> [] | Some al \<Rightarrow> al)"

definition lookup :: "('k, 'v) gomap \<Rightarrow> 'k \<Rightarrow> 'v option" where
  "lookup m k = map_of (entries m) k"

text \<open>
  A slice is a view of an array: \<open>sl_array\<close> is the array's address (\<open>None\<close> for the
  nil slice), \<open>sl_cells\<close> the array's cells from the slice's first element to the
  end of the array, \<open>sl_len\<close> the slice's length. The capacity is the number of cells.
\<close>

record 'a slice =
  sl_array :: ref
  sl_cells :: "'a list"
  sl_len :: nat

definition nil_slice :: "'a slice" where
  "nil_slice = \<lparr>sl_array = None, sl_cells = [], sl_len = 0\<rparr>"

definition len :: "'a slice \<Rightarrow> nat" where
  "len s = sl_len s"

definition cap :: "'a slice \<Rightarrow> nat" where
  "cap s = length (sl_cells s)"

definition elems :: "'a slice \<Rightarrow> 'a list" where
  "elems s = take (sl_len s) (sl_cells s)"

text \<open>The slice expression \<^verbatim>\<open>s[:0]\<close>; its bound 0 is within every capacity.\<close>

definition reslice0 :: "'a slice \<Rightarrow> 'a slice" where
  "reslice0 s = s\<lparr>sl_len := 0\<rparr>"

text \<open>
  \<^verbatim>\<open>float64\<close>: the finite values by the number they denote, the two infinities and
  NaN. \<open>f64_gt\<close> and \<open>f64_eq\<close> are Go's \<^verbatim>\<open>>\<close> and \<^verbatim>\<open>==\<close>, false whenever an operand is NaN.
\<close>

datatype float64 = NaN | NegInf | Finite real | PosInf

fun f64_gt :: "float64 \<Rightarrow> float64 \<Rightarrow> bool" where
  "f64_gt NaN _ = False"
| "f64_gt _ NaN = False"
| "f64_gt NegInf _ = False"
| "f64_gt _ NegInf = True"
| "f64_gt PosInf PosInf = False"
| "f64_gt PosInf _ = True"
| "f64_gt (Finite x) PosInf = False"
| "f64_gt (Finite x) (Finite y) = (y < x)"

fun f64_eq :: "float64 \<Rightarrow> float64 \<Rightarrow> bool" where
  "f64_eq NaN _ = False"
| "f64_eq _ NaN = False"
| "f64_eq x y = (x = y)"

text \<open>
  The dynamic values of \<^verbatim>\<open>interface{}\<close> that field values take: nil, a string, a
  float64, or a \<^verbatim>\<open>[]interface{}\<close>.
\<close>

datatype iface = INil | IString string | IFloat float64 | ISlice "iface list"

subsection \<open>Location and TermLocationMap\<close>

record Location =
  Pos :: uint64
  Start :: uint64
  End :: uint64
  ArrayPositions :: ArrayPositions

text \<open>
  No function here writes to a \<^verbatim>\<open>Location\<close>, so a \<^verbatim>\<open>*Location\<close> is the optional
  record itself, \<open>None\<close> for nil. Reading a field through nil panics.
\<close>

definition Location_SizeInBytes :: "'w::len platform \<Rightarrow> Location option \<Rightarrow> panic + 'w word" where
  "Location_SizeInBytes p l =
     (case l of
        None \<Rightarrow> Inl NilDereference
      | Some loc \<Rightarrow>
          Inr (HeapOverhead p ''Location'' + of_nat (length (ArrayPositions loc)) * SizeOfUint64 p))"

text \<open>
  A value of type \<^verbatim>\<open>Locations\<close> is a slice header: the address of its array (\<open>None\<close>
  for the nil slice), the index of its first element in that array, its length and
  its capacity. The arrays live in a heap, so two slices may view the same cells.
  A \<^verbatim>\<open>TermLocationMap\<close> is shared by reference between its holders, and
  \<^verbatim>\<open>AddLocation\<close> writes to it in place: the tables live in the same heap, and a value
  of type \<^verbatim>\<open>TermLocationMap\<close> is a \<open>ref\<close> to one, \<open>None\<close> for the nil map.
  \<open>next_array\<close> is the first address not yet given to an array, and \<open>growslice n\<close> the
  capacity the runtime would like for a new array of \<open>n\<close> elements.
  (The slices of a \<^verbatim>\<open>DocumentMatch\<close> are resliced here but never written through, so they
  carry their cells with them.)
\<close>

record Locations =
  ls_array :: ref
  ls_off :: nat
  ls_len :: nat
  ls_cap :: nat

type_synonym TermLocationMap = "(string \<times> Locations) list"

record tlm_heap =
  tables :: "nat \<Rightarrow> TermLocationMap"
  arrays :: "nat \<Rightarrow> Location option list"
  next_array :: nat
  growslice :: "nat \<Rightarrow> nat"

definition nil_Locations :: Locations where
  "nil_Locations = \<lparr>ls_array = None, ls_off = 0, ls_len = 0, ls_cap = 0\<rparr>"

text \<open>The elements of a slice, as \<^verbatim>\<open>range\<close> visits them.\<close>

definition Locations_elems :: "tlm_heap \<Rightarrow> Locations \<Rightarrow> Location option list" where
  "Locations_elems \<sigma> s =
     (case ls_array s of
        None \<Rightarrow> []
      | Some b \<Rightarrow> take (ls_len s) (drop (ls_off s) (arrays \<sigma> b)))"

text \<open>
  The built-in \<^verbatim>\<open>append(s, x)\<close>: with spare capacity it writes \<open>x\<close> into the cell after
  the last element of \<open>s\<close>, in the array of \<open>s\<close>; otherwise it copies the elements to a
  new array, large enough, and writes \<open>x\<close> there.
\<close>

definition append_new :: "tlm_heap \<Rightarrow> Locations \<Rightarrow> Location option \<Rightarrow> Locations \<times> tlm_heap" where
  "append_new \<sigma> s x =
     (let n = Suc (ls_len s);
          c = max n (growslice \<sigma> n);
          b = next_array \<sigma>
      in (\<lparr>ls_array = Some b, ls_off = 0, ls_len = n, ls_cap = c\<rparr>,
          \<sigma>\<lparr>arrays := (arrays \<sigma>)(b := Locations_elems \<sigma> s @ [x] @ replicate (c - n) None),
            next_array := Suc b\<rparr>))"

definition append_slice :: "tlm_heap \<Rightarrow> Locations \<Rightarrow> Location option \<Rightarrow> Locations \<times> tlm_heap" where
  "append_slice \<sigma> s x =
     (case ls_array s of
        None \<Rightarrow> append_new \<sigma> s x
      | Some b \<Rightarrow>
          if ls_len s < ls_cap s
          then (s\<lparr>ls_len := Suc (ls_len s)\<rparr>,
                \<sigma>\<lparr>arrays := (arrays \<sigma>)(b := (arrays \<sigma> b)[ls_off s + ls_len s := x])\<rparr>)
          else append_new \<sigma> s x)"

definition tlm_entries :: "tlm_heap \<Rightarrow> ref \<Rightarrow> TermLocationMap" where
  "tlm_entries \<sigma> t = (case t of None \<Rightarrow> [] | Some a \<Rightarrow> tables \<sigma> a)"

text \<open>The index expression \<^verbatim>\<open>t[term]\<close>, the nil slice when the term is not a key.\<close>

definition tlm_index :: "tlm_heap \<Rightarrow> ref \<Rightarrow> string \<Rightarrow> Locations" where
  "tlm_index \<sigma> t term =
     (case map_of (tlm_entries \<sigma> t) term of None \<Rightarrow> nil_Locations | Some s \<Rightarrow> s)"

text \<open>
  \<^verbatim>\<open>t[term] = append(t[term], location)\<close>: reading the nil map gives the nil slice,
  writing to it panics.
\<close>

definition AddLocation :: "tlm_heap \<Rightarrow> ref \<Rightarrow> string \<Rightarrow> Location option \<Rightarrow> panic + tlm_heap" where
  "AddLocation \<sigma> t term location =
     (let (appended, \<sigma>1) = append_slice \<sigma> (tlm_index \<sigma> t term) location
      in case t of
           None \<Rightarrow> Inl NilMapAssignment
         | Some a \<Rightarrow>
             Inr (\<sigma>1\<lparr>tables := (tables \<sigma>1)(a := AList.update term appended (tables \<sigma>1 a))\<rparr>))"

fun Locations_loop :: "'w::len platform \<Rightarrow> Location option list \<Rightarrow> 'w word \<Rightarrow> panic + 'w word" where
  "Locations_loop p [] sizeInBytes = Inr sizeInBytes"
| "Locations_loop p (entry # v) sizeInBytes =
     (case Location_SizeInBytes p entry of
        Inl e \<Rightarrow> Inl e
      | Inr n \<Rightarrow> Locations_loop p v (sizeInBytes + n))"

fun TermLocationMap_loop ::
  "'w::len platform \<Rightarrow> tlm_heap \<Rightarrow> TermLocationMap \<Rightarrow> 'w word \<Rightarrow> panic + 'w word" where
  "TermLocationMap_loop p \<sigma> [] sizeInBytes = Inr sizeInBytes"
| "TermLocationMap_loop p \<sigma> ((k, v) # t) sizeInBytes =
     (case Locations_loop p (Locations_elems \<sigma> v)
             (sizeInBytes + (of_nat (length k) + SizeOfString p + SizeOfSlice p)) of
        Inl e \<Rightarrow> Inl e
      | Inr s \<Rightarrow> TermLocationMap_loop p \<sigma> t s)"

definition TermLocationMap_SizeInBytes ::
  "'w::len platform \<Rightarrow> tlm_heap \<Rightarrow> ref \<Rightarrow> panic + 'w word" where
  "TermLocationMap_SizeInBytes p \<sigma> t =
     TermLocationMap_loop p \<sigma> (tlm_entries \<sigma> t) (HeapOverhead p ''TermLocationMap'')"

subsection \<open>DocumentMatch\<close>

text \<open>
  \<^verbatim>\<open>Explanation\<close> and the package \<^verbatim>\<open>document\<close> are outside these sources. Of an
  explanation the model keeps the number its \<^verbatim>\<open>SizeInBytes()\<close> returns; of a document its
  \<^verbatim>\<open>ID\<close>, its two slices and the \<^verbatim>\<open>uint64\<close> that \<^verbatim>\<open>NumPlainTextBytes()\<close> returns.
\<close>

datatype Explanation = Explanation (Explanation_SizeInBytes: int)

datatype Field = Field (field_Name: string)

datatype CompositeField = CompositeField (composite_Name: string)

record Document =
  doc_ID :: string
  doc_Fields :: "Field list"
  doc_CompositeFields :: "CompositeField option list"
  doc_NumPlainTextBytes :: uint64

type_synonym FieldTermLocationMap = "(string, ref) gomap"

type_synonym FieldFragmentMap = "(string, string list) gomap"

record DocumentMatch =
  Index :: string
  ID :: string
  IndexInternalID :: "8 word slice"
  Score :: float64
  Expl :: "Explanation option"
  Locations :: FieldTermLocationMap
  Fragments :: FieldFragmentMap
  Sort :: "string slice"
  Fields :: "(string, iface) gomap"
  Document :: "Document option"
  HitNumber :: uint64

text \<open>The composite literal \<^verbatim>\<open>DocumentMatch{}\<close>: every field at its zero value.\<close>

definition DocumentMatch_zero :: DocumentMatch where
  "DocumentMatch_zero =
     \<lparr>Index = [], ID = [], IndexInternalID = nil_slice, Score = Finite 0, Expl = None,
      Locations = None, Fragments = None, Sort = nil_slice, Fields = None,
      Document = None, HitNumber = 0\<rparr>"

text \<open>
  \<^verbatim>\<open>AddFieldValue\<close>, \<^verbatim>\<open>SizeInBytes\<close> and the loops below are functions of the object
  the receiver points to. \<^verbatim>\<open>Reset\<close> returns its receiver, so it takes the heap of
  matches and the pointer.
\<close>

definition AddFieldValue :: "DocumentMatch \<Rightarrow> string \<Rightarrow> iface \<Rightarrow> DocumentMatch" where
  "AddFieldValue dm name val =
     (let fields = (case Fields dm of None \<Rightarrow> [] | Some m \<Rightarrow> m)
      in case map_of fields name of
           None \<Rightarrow> dm\<lparr>Fields := Some (AList.update name val fields)\<rparr>
         | Some existingVal \<Rightarrow>
             (let valSlice =
                (case existingVal of
                   ISlice vs \<Rightarrow> vs @ [val]
                 | _ \<Rightarrow> [existingVal, val])
              in dm\<lparr>Fields := Some (AList.update name (ISlice valSlice) fields)\<rparr>))"

type_synonym dm_heap = "nat \<Rightarrow> DocumentMatch"

definition Reset :: "dm_heap \<Rightarrow> ref \<Rightarrow> panic + (ref \<times> dm_heap)" where
  "Reset h dm =
     (case dm of
        None \<Rightarrow> Inl NilDereference
      | Some a \<Rightarrow>
          (let indexInternalID = IndexInternalID (h a);
               sort = Sort (h a);
               h1 = h(a := DocumentMatch_zero);
               h2 = h1(a := (h1 a)\<lparr>IndexInternalID := reslice0 indexInternalID\<rparr>);
               h3 = h2(a := (h2 a)\<lparr>Sort := reslice0 sort\<rparr>)
           in Inr (dm, h3)))"

fun Locations_field_loop ::
  "'w::len platform \<Rightarrow> tlm_heap \<Rightarrow> (string \<times> ref) list \<Rightarrow> 'w word \<Rightarrow> panic + 'w word" where
  "Locations_field_loop p \<sigma> [] sizeInBytes = Inr sizeInBytes"
| "Locations_field_loop p \<sigma> ((k, v) # m) sizeInBytes =
     (case TermLocationMap_SizeInBytes p \<sigma> v of
        Inl e \<Rightarrow> Inl e
      | Inr n \<Rightarrow> Locations_field_loop p \<sigma> m (sizeInBytes + (of_nat (length k) + SizeOfString p + n)))"

fun strings_loop :: "'w::len platform \<Rightarrow> string list \<Rightarrow> 'w word \<Rightarrow> 'w word" where
  "strings_loop p [] sizeInBytes = sizeInBytes"
| "strings_loop p (entry # v) sizeInBytes =
     strings_loop p v (sizeInBytes + (of_nat (length entry) + SizeOfString p))"

fun Fragments_loop ::
  "'w::len platform \<Rightarrow> (string \<times> string list) list \<Rightarrow> 'w word \<Rightarrow> 'w word" where
  "Fragments_loop p [] sizeInBytes = sizeInBytes"
| "Fragments_loop p ((k, v) # m) sizeInBytes =
     Fragments_loop p m
       (strings_loop p v (sizeInBytes + (of_nat (length k) + SizeOfString p + SizeOfSlice p)))"

fun Fields_loop :: "'w::len platform \<Rightarrow> (string \<times> iface) list \<Rightarrow> 'w word \<Rightarrow> 'w word" where
  "Fields_loop p [] sizeInBytes = sizeInBytes"
| "Fields_loop p ((k, _) # m) sizeInBytes =
     Fields_loop p m (sizeInBytes + (of_nat (length k) + SizeOfString p + SizeOfInterface p))"

text \<open>The conversion \<^verbatim>\<open>int(u)\<close> of a \<^verbatim>\<open>uint64\<close> keeps the low bits: it is \<open>ucast\<close>.\<close>

definition Document_part :: "'w::len platform \<Rightarrow> Document \<Rightarrow> 'w word" where
  "Document_part p d =
     HeapOverhead p ''Document'' + ucast (doc_NumPlainTextBytes d) +
     of_nat (length (doc_ID d)) +
     of_nat (length (doc_Fields d)) * SizeOfInterface p +
     of_nat (length (doc_CompositeFields d)) * HeapOverhead p ''CompositeFields''"

definition SizeInBytes :: "'w::len platform \<Rightarrow> tlm_heap \<Rightarrow> DocumentMatch \<Rightarrow> panic + 'w word" where
  "SizeInBytes p \<sigma> dm =
     (let s0 = HeapOverhead p ''DocumentMatch'' +
               of_nat (length (Index dm)) + of_nat (length (ID dm)) +
               of_nat (len (IndexInternalID dm));
          s1 = (case Expl dm of
                  None \<Rightarrow> s0
                | Some expl \<Rightarrow> s0 + of_int (Explanation_SizeInBytes expl))
      in case Locations_field_loop p \<sigma> (entries (Locations dm)) s1 of
           Inl e \<Rightarrow> Inl e
         | Inr s2 \<Rightarrow>
             (let s3 = Fragments_loop p (entries (Fragments dm)) s2;
                  s4 = strings_loop p (elems (Sort dm)) s3;
                  s5 = Fields_loop p (entries (Fields dm)) s4;
                  s6 = (case Document dm of None \<Rightarrow> s5 | Some d \<Rightarrow> s5 + Document_part p d)
              in Inr s6))"

subsection \<open>DocumentMatchCollection\<close>

type_synonym DocumentMatchCollection = "ref list"

text \<open>An index expression \<^verbatim>\<open>c[i]\<close> with a Go \<^verbatim>\<open>int\<close> index.\<close>

definition index :: "'a list \<Rightarrow> int \<Rightarrow> panic + 'a" where
  "index c i = (if 0 \<le> i \<and> i < int (length c) then Inr (c ! nat i) else Inl IndexOutOfRange)"

definition Len :: "DocumentMatchCollection \<Rightarrow> int" where
  "Len c = int (length c)"

definition Swap :: "DocumentMatchCollection \<Rightarrow> int \<Rightarrow> int \<Rightarrow> panic + DocumentMatchCollection" where
  "Swap c i j =
     (case index c j of
        Inl e \<Rightarrow> Inl e
      | Inr cj \<Rightarrow>
          (case index c i of
             Inl e \<Rightarrow> Inl e
           | Inr ci \<Rightarrow> Inr ((c[nat i := cj])[nat j := ci])))"

definition field_Score :: "dm_heap \<Rightarrow> ref \<Rightarrow> panic + float64" where
  "field_Score h dm = (case dm of None \<Rightarrow> Inl NilDereference | Some a \<Rightarrow> Inr (Score (h a)))"

definition Less :: "dm_heap \<Rightarrow> DocumentMatchCollection \<Rightarrow> int \<Rightarrow> int \<Rightarrow> panic + bool" where
  "Less h c i j =
     (case index c i of
        Inl e \<Rightarrow> Inl e
      | Inr ci \<Rightarrow>
          (case field_Score h ci of
             Inl e \<Rightarrow> Inl e
           | Inr si \<Rightarrow>
               (case index c j of
                  Inl e \<Rightarrow> Inl e
                | Inr cj \<Rightarrow>
                    (case field_Score h cj of
                       Inl e \<Rightarrow> Inl e
                     | Inr sj \<Rightarrow> Inr (f64_gt si sj)))))"

fun Collection_loop ::
  "'w::len platform \<Rightarrow> tlm_heap \<Rightarrow> dm_heap \<Rightarrow> DocumentMatchCollection \<Rightarrow> 'w word \<Rightarrow>
   panic + 'w word" where
  "Collection_loop p \<sigma> h [] sizeInBytes = Inr sizeInBytes"
| "Collection_loop p \<sigma> h (entry # c) sizeInBytes =
     (case entry of
        None \<Rightarrow> Collection_loop p \<sigma> h c sizeInBytes
      | Some a \<Rightarrow>
          (case SizeInBytes p \<sigma> (h a) of
             Inl e \<Rightarrow> Inl e
           | Inr n \<Rightarrow> Collection_loop p \<sigma> h c (sizeInBytes + n)))"

definition Collection_SizeInBytes ::
  "'w::len platform \<Rightarrow> tlm_heap \<Rightarrow> dm_heap \<Rightarrow> DocumentMatchCollection \<Rightarrow> panic + 'w word" where
  "Collection_SizeInBytes p \<sigma> h c =
     Collection_loop p \<sigma> h c (HeapOverhead p ''DocumentMatchCollection'')"

subsection \<open>Repeated calls of AddFieldValue\<close>

text \<open>The type assertion \<^verbatim>\<open>existingVal.([]interface{})\<close> succeeds on these values.\<close>

fun is_slice :: "iface \<Rightarrow> bool" where
  "is_slice (ISlice _) = True"
| "is_slice _ = False"

definition AddFieldValues :: "DocumentMatch \<Rightarrow> string \<Rightarrow> iface list \<Rightarrow> DocumentMatch" where
  "AddFieldValues dm name vals = foldl (\<lambda>d v. AddFieldValue d name v) dm vals"

subsection \<open>The JSON members of a DocumentMatch\<close>

text \<open>
  The struct tags of \<^verbatim>\<open>DocumentMatch\<close>, in the order of the declaration. The tag
  \<^verbatim>\<open>json:"-"\<close> is \<open>Dash\<close>; \<open>Key k b\<close> is the key \<open>k\<close>, with \<^verbatim>\<open>omitempty\<close> when \<open>b\<close>.
  \<^verbatim>\<open>encoding/json\<close> writes one member per field in that order, skips a \<open>Dash\<close> field,
  and skips an \<^verbatim>\<open>omitempty\<close> field whose value is empty: a string, slice or map of
  length 0, a nil pointer, a zero number.
\<close>

datatype dm_field =
  F_Index | F_ID | F_IndexInternalID | F_Score | F_Expl | F_Locations | F_Fragments |
  F_Sort | F_Fields | F_Document | F_HitNumber

datatype json_tag = Dash | Key string bool

definition DocumentMatch_fields :: "dm_field list" where
  "DocumentMatch_fields =
     [F_Index, F_ID, F_IndexInternalID, F_Score, F_Expl, F_Locations, F_Fragments,
      F_Sort, F_Fields, F_Document, F_HitNumber]"

fun json_tag_of :: "dm_field \<Rightarrow> json_tag" where
  "json_tag_of F_Index = Key ''index'' True"
| "json_tag_of F_ID = Key ''id'' False"
| "json_tag_of F_IndexInternalID = Dash"
| "json_tag_of F_Score = Key ''score'' False"
| "json_tag_of F_Expl = Key ''explanation'' True"
| "json_tag_of F_Locations = Key ''locations'' True"
| "json_tag_of F_Fragments = Key ''fragments'' True"
| "json_tag_of F_Sort = Key ''sort'' True"
| "json_tag_of F_Fields = Key ''fields'' True"
| "json_tag_of F_Document = Dash"
| "json_tag_of F_HitNumber = Dash"

fun isEmptyValue :: "DocumentMatch \<Rightarrow> dm_field \<Rightarrow> bool" where
  "isEmptyValue dm F_Index = (length (Index dm) = 0)"
| "isEmptyValue dm F_ID = (length (ID dm) = 0)"
| "isEmptyValue dm F_IndexInternalID = (len (IndexInternalID dm) = 0)"
| "isEmptyValue dm F_Score = (Score dm = Finite 0)"
| "isEmptyValue dm F_Expl = (Expl dm = None)"
| "isEmptyValue dm F_Locations = (length (entries (Locations dm)) = 0)"
| "isEmptyValue dm F_Fragments = (length (entries (Fragments dm)) = 0)"
| "isEmptyValue dm F_Sort = (len (Sort dm) = 0)"
| "isEmptyValue dm F_Fields = (length (entries (Fields dm)) = 0)"
| "isEmptyValue dm F_Document = (Document dm = None)"
| "isEmptyValue dm F_HitNumber = (HitNumber dm = 0)"

definition json_member :: "DocumentMatch \<Rightarrow> dm_field \<Rightarrow> (string \<times> dm_field) list" where
  "json_member dm f =
     (case json_tag_of f of
        Dash \<Rightarrow> []
      | Key k omitempty \<Rightarrow> if omitempty \<and> isEmptyValue dm f then [] else [(k, f)])"

definition json_members :: "DocumentMatch \<Rightarrow> (string \<times> dm_field) list" where
  "json_members dm = concat (map (json_member dm) DocumentMatch_fields)"

definition json_keys :: "DocumentMatch \<Rightarrow> string list" where
  "json_keys dm = map fst (json_members dm)"

subsection \<open>The size of a DocumentMatch as the specification words it\<close>

text \<open>
  The fixed overhead of the shape plus the variable parts, each a sum over the
  contents; for an attached document the overhead of \<^verbatim>\<open>Document\<close>, its plain-text
  bytes, the length of its ID, the interface overhead of each field and, for each
  composite field, the overhead that \<^verbatim>\<open>init\<close> stores for \<^verbatim>\<open>CompositeField\<close>.
\<close>

definition Document_size_spec :: "'w::len platform \<Rightarrow> Document \<Rightarrow> 'w word" where
  "Document_size_spec p d =
     HeapOverhead p ''Document'' + ucast (doc_NumPlainTextBytes d) + of_nat (length (doc_ID d)) +
     (\<Sum>f \<leftarrow> doc_Fields d. SizeOfInterface p) +
     (\<Sum>cf \<leftarrow> doc_CompositeFields d. HeapOverhead p ''CompositeField'')"

definition SizeInBytes_spec ::
  "'w::len platform \<Rightarrow> tlm_heap \<Rightarrow> DocumentMatch \<Rightarrow> panic + 'w word" where
  "SizeInBytes_spec p \<sigma> dm =
     (case Locations_field_loop p \<sigma> (entries (Locations dm)) 0 of
        Inl e \<Rightarrow> Inl e
      | Inr locations \<Rightarrow>
          Inr (HeapOverhead p ''DocumentMatch'' +
               of_nat (length (Index dm)) + of_nat (length (ID dm)) +
               of_nat (len (IndexInternalID dm)) +
               (case Expl dm of None \<Rightarrow> 0 | Some expl \<Rightarrow> of_int (Explanation_SizeInBytes expl)) +
               locations +
               (\<Sum>(k, v) \<leftarrow> entries (Fragments dm).
                  of_nat (length k) + SizeOfString p + SizeOfSlice p +
                  (\<Sum>entry \<leftarrow> v. of_nat (length entry) + SizeOfString p)) +
               (\<Sum>entry \<leftarrow> elems (Sort dm). of_nat (length entry) + SizeOfString p) +
               (\<Sum>(k, v) \<leftarrow> entries (Fields dm).
                  of_nat (length k) + SizeOfString p + SizeOfInterface p) +
               (case Document dm of None \<Rightarrow> 0 | Some d \<Rightarrow> Document_size_spec p d)))"

subsection \<open>What AddLocation needs to grow the sizes\<close>

text \<open>
  The slices of the tables that the \<open>Locations\<close> of a match hold; the number of its
  fields that hold the table at \<open>a\<close>.
\<close>

definition held_slices :: "tlm_heap \<Rightarrow> DocumentMatch \<Rightarrow> Locations list" where
  "held_slices \<sigma> dm =
     concat (map (\<lambda>(k, t). map snd (tlm_entries \<sigma> t)) (entries (Locations dm)))"

definition holders :: "DocumentMatch \<Rightarrow> nat \<Rightarrow> nat" where
  "holders dm a = length (filter (\<lambda>kv. snd kv = Some a) (entries (Locations dm)))"

text \<open>A slice lies within its array; the nil slice has no capacity.\<close>

definition slice_ok :: "tlm_heap \<Rightarrow> Locations \<Rightarrow> bool" where
  "slice_ok \<sigma> s \<longleftrightarrow>
     ls_len s \<le> ls_cap s \<and>
     (case ls_array s of
        None \<Rightarrow> ls_cap s = 0
      | Some b \<Rightarrow> ls_off s + ls_cap s \<le> length (arrays \<sigma> b))"

text \<open>
  \<open>views r b i\<close>: cell \<open>i\<close> of array \<open>b\<close> is an element of the slice \<open>r\<close>.
  \<open>append_unshared \<sigma> s rs\<close>: no slice of \<open>rs\<close> has, among its elements, a cell that
  \<open>append\<close> on \<open>s\<close> writes: the cell after the last element of \<open>s\<close> when \<open>s\<close> has spare
  capacity, the cells of the new array otherwise.
\<close>

definition views :: "Locations \<Rightarrow> nat \<Rightarrow> nat \<Rightarrow> bool" where
  "views r b i \<longleftrightarrow> ls_array r = Some b \<and> ls_off r \<le> i \<and> i < ls_off r + ls_len r"

definition append_unshared :: "tlm_heap \<Rightarrow> Locations \<Rightarrow> Locations list \<Rightarrow> bool" where
  "append_unshared \<sigma> s rs =
     list_all (\<lambda>r.
       case ls_array s of
         None \<Rightarrow> ls_array r \<noteq> Some (next_array \<sigma>)
       | Some b \<Rightarrow>
           if ls_len s < ls_cap s then \<not> views r b (ls_off s + ls_len s)
           else ls_array r \<noteq> Some (next_array \<sigma>)) rs"

text \<open>
  The bytes that one more location under \<open>term\<close> adds to the table at \<open>a\<close>, as a
  number: the size of the location and, when the term is not yet a key, the
  overhead of the new key.
\<close>

definition AddLocation_growth ::
  "'w::len platform \<Rightarrow> tlm_heap \<Rightarrow> nat \<Rightarrow> string \<Rightarrow> Location \<Rightarrow> int" where
  "AddLocation_growth p \<sigma> a term location =
     sint (HeapOverhead p ''Location'') +
     int (length (ArrayPositions location)) * sint (SizeOfUint64 p) +
     (if term \<in> fst ` set (tables \<sigma> a) then 0
      else int (length term) + sint (SizeOfString p) + sint (SizeOfSlice p))"

subsection \<open>Concrete inputs\<close>

text \<open>A table of term locations, a populated match and a heap of matches, for the runs.\<close>

definition example_location :: Location where
  "example_location = \<lparr>Pos = 1, Start = 0, End = 2, ArrayPositions = [0, 3]\<rparr>"

definition example_tlms :: tlm_heap where
  "example_tlms =
     \<lparr>tables = (\<lambda>_. [])(0 := [(''go'', \<lparr>ls_array = Some 0, ls_off = 0, ls_len = 1, ls_cap = 1\<rparr>)]),
      arrays = (\<lambda>_. [])(0 := [Some example_location]),
      next_array = 1, growslice = (\<lambda>n. 2 * n)\<rparr>"

definition example_match :: DocumentMatch where
  "example_match =
     \<lparr>Index = ''idx'', ID = ''a'',
      IndexInternalID = \<lparr>sl_array = Some 7, sl_cells = [1, 2, 3, 4], sl_len = 2\<rparr>,
      Score = Finite 2, Expl = Some (Explanation 40),
      Locations = Some [(''body'', Some 0)], Fragments = Some [(''body'', [''ab''])],
      Sort = \<lparr>sl_array = Some 8, sl_cells = [''x'', ''y''], sl_len = 1\<rparr>,
      Fields = Some [(''title'', IString ''t'')], Document = None, HitNumber = 3\<rparr>"

definition example_matches :: dm_heap where
  "example_matches =
     (\<lambda>_. DocumentMatch_zero)(0 := example_match, 1 := DocumentMatch_zero\<lparr>Score := Finite 1\<rparr>)"

text \<open>A match whose loaded document has one composite field.\<close>

definition match_with_composite :: DocumentMatch where
  "match_with_composite =
     DocumentMatch_zero
       \<lparr>Document := Some \<lparr>doc_ID = ''a'', doc_Fields = [],
                            doc_CompositeFields = [Some (CompositeField ''_all'')],
                            doc_NumPlainTextBytes = 0\<rparr>\<rparr>"

text \<open>
  A table whose two slices view one array: \<^verbatim>\<open>s := Locations{l1, big}\<close> and
  \<^verbatim>\<open>t := TermLocationMap{"x": s[:1], "y": s}\<close>. \<open>aliased_tlms_added\<close> is the heap after
  \<^verbatim>\<open>t.AddLocation("x", small)\<close>, and \<open>aliased_match\<close> a match that holds \<open>t\<close>.
\<close>

definition big_location :: Location where
  "big_location = \<lparr>Pos = 2, Start = 3, End = 5, ArrayPositions = [0, 1, 2, 3, 4, 5, 6, 7, 8]\<rparr>"

definition small_location :: Location where
  "small_location = \<lparr>Pos = 3, Start = 6, End = 8, ArrayPositions = []\<rparr>"

definition aliased_tlms :: tlm_heap where
  "aliased_tlms =
     \<lparr>tables = (\<lambda>_. [])(0 :=
        [(''x'', \<lparr>ls_array = Some 0, ls_off = 0, ls_len = 1, ls_cap = 2\<rparr>),
         (''y'', \<lparr>ls_array = Some 0, ls_off = 0, ls_len = 2, ls_cap = 2\<rparr>)]),
      arrays = (\<lambda>_. [])(0 := [Some example_location, Some big_location]),
      next_array = 1, growslice = (\<lambda>n. 2 * n)\<rparr>"

definition aliased_tlms_added :: tlm_heap where
  "aliased_tlms_added =
     \<lparr>tables = (\<lambda>_. [])(0 :=
        [(''x'', \<lparr>ls_array = Some 0, ls_off = 0, ls_len = 2, ls_cap = 2\<rparr>),
         (''y'', \<lparr>ls_array = Some 0, ls_off = 0, ls_len = 2, ls_cap = 2\<rparr>)]),
      arrays = (\<lambda>_. [])(0 := [Some example_location, Some small_location]),
      next_array = 1, growslice = (\<lambda>n. 2 * n)\<rparr>"

definition aliased_match :: DocumentMatch where
  "aliased_match = DocumentMatch_zero\<lparr>Locations := Some [(''body'', Some 0)]\<rparr>"

section \<open>Properties\<close>

subsection \<open>ArrayPositions.Equals\<close>

lemma Equals_loop_iff:
  "length ap = length other \<Longrightarrow>
   Equals_loop ap other i \<longleftrightarrow> (\<forall>k. i \<le> k \<and> k < length ap \<longrightarrow> ap ! k = other ! k)"
proof (induction ap other i rule: Equals_loop.induct)
  case (1 ap other i)
  show ?case
  proof (cases "i < length ap")
    case False
    then show ?thesis by (subst Equals_loop.simps) auto
  next
    case True
    show ?thesis
    proof (cases "ap ! i = other ! i")
      case False
      with True show ?thesis by (subst Equals_loop.simps) auto
    next
      case eq: True
      have "Equals_loop ap other i = Equals_loop ap other (Suc i)"
        using True eq by (subst Equals_loop.simps) simp
      also have "\<dots> \<longleftrightarrow> (\<forall>k. Suc i \<le> k \<and> k < length ap \<longrightarrow> ap ! k = other ! k)"
        using "1.IH" [OF True _ "1.prems"] eq by simp
      also have "\<dots> \<longleftrightarrow> (\<forall>k. i \<le> k \<and> k < length ap \<longrightarrow> ap ! k = other ! k)"
      proof (intro iffI allI impI)
        fix k
        assume h: "\<forall>k. Suc i \<le> k \<and> k < length ap \<longrightarrow> ap ! k = other ! k"
          and k: "i \<le> k \<and> k < length ap"
        show "ap ! k = other ! k"
        proof (cases "k = i")
          case True
          with eq show ?thesis by simp
        next
          case False
          with k have "Suc i \<le> k" by simp
          with h k show ?thesis by blast
        qed
      next
        fix k
        assume h: "\<forall>k. i \<le> k \<and> k < length ap \<longrightarrow> ap ! k = other ! k"
          and k: "Suc i \<le> k \<and> k < length ap"
        then have "i \<le> k \<and> k < length ap" by simp
        with h show "ap ! k = other ! k" by blast
      qed
      finally show ?thesis .
    qed
  qed
qed

text \<open>
  Claim C9. \<open>a.Equals(b)\<close> is true exactly when \<open>a\<close> and \<open>b\<close> have the same length and
  equal elements at every index; so \<open>Equals\<close> is reflexive and symmetric.
\<close>

theorem Equals_spec:
  "(Equals a b \<longleftrightarrow> length a = length b \<and> (\<forall>i<length a. a ! i = b ! i)) \<and>
   Equals a a \<and> (Equals a b \<longrightarrow> Equals b a)"
proof -
  have iff: "Equals x y \<longleftrightarrow> length x = length y \<and> (\<forall>i<length x. x ! i = y ! i)" for x y
    by (simp add: Equals_def Equals_loop_iff)
  have refl: "Equals a a"
    by (simp add: iff)
  have sym: "Equals a b \<longrightarrow> Equals b a"
    by (simp add: iff)
  from iff [of a b] refl sym show ?thesis by blast
qed

theorem Equals_spec_witness:
  "Equals [1, 2] [1, 2] \<and> \<not> Equals [1, 2] [1]"
proof -
  have 1: "Equals [1, 2] [1, 2]"
    using Equals_spec [of "[1, 2]" "[1, 2]"] by blast
  have 2: "\<not> Equals [1, 2] [1]"
    using Equals_spec [of "[1, 2]" "[1]", THEN conjunct1] by simp
  from 1 2 show ?thesis by (rule conjI)
qed

subsection \<open>MemTracker\<close>

lemma Usage_Add:
  "Usage_after h ((Some a, n) # calls) q =
   Usage_after (h\<lparr>mt_cells := (mt_cells h)(a := (mt_cells h a)\<lparr>bytes := bytes (mt_cells h a) + n\<rparr>)\<rparr>) calls q"
  by (simp add: Usage_after_def Add_def)

lemma Usage_after_sum:
  "\<forall>c \<in> set calls. fst c \<noteq> None \<Longrightarrow>
   Usage_after h calls (Some a) =
   Inr (bytes (mt_cells h a) + sum_list (map snd (filter (\<lambda>c. fst c = Some a) calls)))"
proof (induction calls arbitrary: h)
  case Nil
  then show ?case by (simp add: Usage_after_def Usage_def)
next
  case (Cons c calls)
  obtain b n where c: "c = (Some b, n)"
    using Cons.prems by (cases c) auto
  have rest: "\<forall>c \<in> set calls. fst c \<noteq> None"
    using Cons.prems by simp
  show ?case
    unfolding c Usage_Add Cons.IH [OF rest]
    by (simp add: add.assoc)
qed

text \<open>
  Claim C3. Take a tracker \<open>m\<close> fresh from \<^verbatim>\<open>NewMemTracker\<close> and any sequence of
  \<^verbatim>\<open>Add\<close> calls on trackers in which the calls on \<open>m\<close> are \<open>Add(a)\<close>, \<open>Add(b)\<close>, \<open>Add(c)\<close>,
  interleaved at will with calls on other trackers. No call fails, whatever the
  amounts; afterwards \<open>Usage()\<close> of \<open>m\<close> is \<open>a + b + c\<close> in \<^verbatim>\<open>uint64\<close> arithmetic (the sum
  modulo \<open>2 ^ 64\<close>), and \<open>Usage()\<close> of every other tracker is what it would be had the
  calls on \<open>m\<close> never been made.
\<close>

theorem Usage_sums_Adds:
  assumes calls: "\<forall>c \<in> set calls. fst c \<noteq> None"
    and abc: "map snd (filter (\<lambda>c. fst c = m) calls) = [a, b, c]"
    and new: "NewMemTracker h = (m, h0)"
  shows "Usage_after h0 calls m = Inr (a + b + c) \<and>
         unat (a + b + c) = (unat a + unat b + unat c) mod 2 ^ 64 \<and>
         (\<forall>q. q \<noteq> m \<and> q \<noteq> None \<longrightarrow>
            Usage_after h0 calls q = Usage_after h0 (filter (\<lambda>c. fst c \<noteq> m) calls) q)"
proof -
  from new have m: "m = Some (mt_next h)" and zero: "bytes (mt_cells h0 (mt_next h)) = 0"
    by (auto simp: NewMemTracker_def)
  have 1: "Usage_after h0 calls m = Inr (a + b + c)"
    unfolding m using Usage_after_sum [OF calls, of h0 "mt_next h"] abc zero
    by (simp add: m add.assoc)
  have 2: "unat (a + b + c) = (unat a + unat b + unat c) mod 2 ^ 64"
    by (simp add: unat_word_ariths mod_simps)
  have 3: "Usage_after h0 calls q = Usage_after h0 (filter (\<lambda>c. fst c \<noteq> m) calls) q"
    if "q \<noteq> m" "q \<noteq> None" for q
  proof -
    from that obtain r where q: "q = Some r" by auto
    have others: "\<forall>c \<in> set (filter (\<lambda>c. fst c \<noteq> m) calls). fst c \<noteq> None"
      using calls by simp
    have same: "filter (\<lambda>c. fst c = q) (filter (\<lambda>c. fst c \<noteq> m) calls) =
                filter (\<lambda>c. fst c = q) calls"
      using that(1) by (auto intro: filter_cong)
    show ?thesis
      unfolding q Usage_after_sum [OF calls] Usage_after_sum [OF others]
      using same by (simp add: q)
  qed
  from 1 2 3 show ?thesis by blast
qed


theorem Usage_sums_Adds_witness:
  "Usage_after (snd (NewMemTracker (snd (NewMemTracker mt_empty))))
     [(Some 1, 10), (Some 0, 7), (Some 1, 20), (Some 1, 30), (Some 0, 8)] (Some 1) = Inr 60 \<and>
   Usage_after (snd (NewMemTracker (snd (NewMemTracker mt_empty))))
     [(Some 1, 10), (Some 0, 7), (Some 1, 20), (Some 1, 30), (Some 0, 8)] (Some 0) =
   Usage_after (snd (NewMemTracker (snd (NewMemTracker mt_empty))))
     [(Some 0, 7), (Some 0, 8)] (Some 0)"
proof -
  let ?h = "snd (NewMemTracker mt_empty)"
  let ?calls = "[(Some 1, 10), (Some 0, 7), (Some 1, 20), (Some 1, 30), (Some 0, 8)] :: (ref \<times> uint64) list"
  have new: "NewMemTracker ?h = (Some 1, snd (NewMemTracker ?h))"
    by (simp add: NewMemTracker_def mt_empty_def)
  have calls: "\<forall>c \<in> set ?calls. fst c \<noteq> None" by simp
  have abc: "map snd (filter (\<lambda>c. fst c = Some 1) ?calls) = [10, 20, 30]" by simp
  have others: "filter (\<lambda>c. fst c \<noteq> Some 1) ?calls = [(Some 0, 7), (Some 0, 8)]" by simp
  note inst = Usage_sums_Adds [OF calls abc new]
  have 1: "Usage_after (snd (NewMemTracker ?h)) ?calls (Some 1) = Inr 60"
    using inst [THEN conjunct1] by simp
  have 2: "Usage_after (snd (NewMemTracker ?h)) ?calls (Some 0) =
           Usage_after (snd (NewMemTracker ?h)) [(Some 0, 7), (Some 0, 8)] (Some 0)"
    using inst [THEN conjunct2, THEN conjunct2, THEN spec, of "Some 0"] unfolding others by simp
  from 1 2 show ?thesis by (rule conjI)
qed

text \<open>
  Claim C6, amended. After \<open>Add(n)\<close> on a tracker whose \<open>Usage()\<close> was \<open>u\<close>, \<open>Usage()\<close>
  is \<open>u + n\<close> modulo \<open>2 ^ 64\<close>; it is at least \<open>u\<close> exactly when \<open>u + n\<close> stays below
  \<open>2 ^ 64\<close>. As stated, without the bound, the claim fails where the sum wraps
  around, as the run after the theorem shows.
\<close>

theorem Add_Usage:
  assumes "Usage h (Some a) = Inr u"
  shows "\<exists>h'. Add h (Some a) n = Inr h' \<and> Usage h' (Some a) = Inr (u + n) \<and>
           unat (u + n) = (unat u + unat n) mod 2 ^ 64 \<and>
           (u \<le> u + n \<longleftrightarrow> unat u + unat n < 2 ^ 64)"
  using assms by (auto simp: Add_def Usage_def unat_word_ariths no_olen_add_nat)

theorem Add_Usage_witness:
  "Usage (snd (NewMemTracker mt_empty)) (Some 0) = Inr 0 \<and>
   Usage_after (snd (NewMemTracker mt_empty)) [(Some 0, 5)] (Some 0) = Inr 5"
proof -
  have u: "Usage (snd (NewMemTracker mt_empty)) (Some 0) = Inr 0"
    by (simp add: Usage_def NewMemTracker_def mt_empty_def)
  from Add_Usage [OF u, of 5] obtain h' where
    "Add (snd (NewMemTracker mt_empty)) (Some 0) 5 = Inr h'" "Usage h' (Some 0) = Inr (0 + 5)"
    by blast
  then have "Usage_after (snd (NewMemTracker mt_empty)) [(Some 0, 5)] (Some 0) = Inr 5"
    by (simp add: Usage_after_def)
  with u show ?thesis by (rule conjI)
qed

theorem Add_monotone_counterexample:
  "Usage_after (snd (NewMemTracker mt_empty)) [(Some 0, 18446744073709551615)] (Some 0)
     = Inr 18446744073709551615 \<and>
   Usage_after (snd (NewMemTracker mt_empty)) [(Some 0, 18446744073709551615), (Some 0, 1)] (Some 0)
     = Inr 0 \<and>
   \<not> (18446744073709551615 :: uint64) \<le> 0"
proof -
  have 1: "Usage_after (snd (NewMemTracker mt_empty)) [(Some 0, 18446744073709551615)] (Some 0)
     = Inr 18446744073709551615"
    by (simp add: Usage_after_def Add_def Usage_def NewMemTracker_def mt_empty_def)
  have 2: "Usage_after (snd (NewMemTracker mt_empty)) [(Some 0, 18446744073709551615), (Some 0, 1)] (Some 0)
     = Inr 0"
    by (simp add: Usage_after_def Add_def Usage_def NewMemTracker_def mt_empty_def)
  have 3: "\<not> (18446744073709551615 :: uint64) \<le> 0"
    by simp
  from 1 2 3 show ?thesis by blast
qed

subsection \<open>DocumentMatch.Reset\<close>

text \<open>
  Claim C1. \<open>Reset()\<close> on a match returns the pointer it was called on. In the
  object it points to, \<open>Score\<close> is zero, \<open>Index\<close> and \<open>ID\<close> are empty, \<open>Expl\<close>,
  \<open>Locations\<close>, \<open>Fragments\<close>, \<open>Fields\<close> and \<open>Document\<close> are nil and \<open>HitNumber\<close> is
  zero; \<open>IndexInternalID\<close> and \<open>Sort\<close> have length 0 and keep their array, its cells
  and so their capacity. No other match of the heap changes.
\<close>

theorem Reset_spec:
  "\<exists>h'. Reset h (Some a) = Inr (Some a, h') \<and>
     Index (h' a) = [] \<and> ID (h' a) = [] \<and> Score (h' a) = Finite 0 \<and>
     Expl (h' a) = None \<and> Locations (h' a) = None \<and> Fragments (h' a) = None \<and>
     Fields (h' a) = None \<and> Document (h' a) = None \<and> HitNumber (h' a) = 0 \<and>
     len (IndexInternalID (h' a)) = 0 \<and>
     cap (IndexInternalID (h' a)) = cap (IndexInternalID (h a)) \<and>
     sl_array (IndexInternalID (h' a)) = sl_array (IndexInternalID (h a)) \<and>
     sl_cells (IndexInternalID (h' a)) = sl_cells (IndexInternalID (h a)) \<and>
     len (Sort (h' a)) = 0 \<and>
     cap (Sort (h' a)) = cap (Sort (h a)) \<and>
     sl_array (Sort (h' a)) = sl_array (Sort (h a)) \<and>
     sl_cells (Sort (h' a)) = sl_cells (Sort (h a)) \<and>
     (\<forall>b. b \<noteq> a \<longrightarrow> h' b = h b)"
  by (simp add: Reset_def Let_def DocumentMatch_zero_def reslice0_def len_def cap_def)

theorem Reset_spec_witness:
  "\<exists>h'. Reset example_matches (Some 0) = Inr (Some 0, h') \<and>
     Score (h' 0) = Finite 0 \<and> Fields (h' 0) = None \<and>
     len (IndexInternalID (h' 0)) = 0 \<and> cap (IndexInternalID (h' 0)) = 4 \<and>
     len (Sort (h' 0)) = 0 \<and> cap (Sort (h' 0)) = 2 \<and>
     Score (h' 1) = Finite 1"
proof -
  from Reset_spec [of example_matches 0] obtain h' where
    r: "Reset example_matches (Some 0) = Inr (Some 0, h')"
    and f: "Score (h' 0) = Finite 0" "Fields (h' 0) = None"
      "len (IndexInternalID (h' 0)) = 0" "len (Sort (h' 0)) = 0"
    and c: "cap (IndexInternalID (h' 0)) = cap (IndexInternalID (example_matches 0))"
      "cap (Sort (h' 0)) = cap (Sort (example_matches 0))"
    and o: "\<forall>b. b \<noteq> 0 \<longrightarrow> h' b = example_matches b"
    by blast
  have c1: "cap (IndexInternalID (example_matches 0)) = 4"
    by (simp add: example_matches_def example_match_def cap_def)
  have c2: "cap (Sort (example_matches 0)) = 2"
    by (simp add: example_matches_def example_match_def cap_def)
  have o1: "Score (h' 1) = Finite 1"
    using o by (simp add: example_matches_def)
  from r f c c1 c2 o1 show ?thesis by auto
qed

subsection \<open>DocumentMatchCollection\<close>

lemma f64_eq_not_gt: "f64_eq x y \<Longrightarrow> \<not> f64_gt x y \<and> \<not> f64_gt y x"
  by (cases x; cases y) simp_all

text \<open>
  Claim C7. For indices \<open>i\<close>, \<open>j\<close> within the collection, whose entries point to
  matches, \<open>Less(i, j)\<close> is true exactly when the score at \<open>i\<close> is greater than the
  score at \<open>j\<close>; when the two scores are equal it is false in both directions.
\<close>

theorem Less_spec:
  assumes "0 \<le> i" "i < Len c" "0 \<le> j" "j < Len c"
    and "c ! nat i = Some a" "c ! nat j = Some b"
  shows "Less h c i j = Inr (f64_gt (Score (h a)) (Score (h b))) \<and>
         (f64_eq (Score (h a)) (Score (h b)) \<longrightarrow>
            Less h c i j = Inr False \<and> Less h c j i = Inr False)"
proof -
  have ij: "Less h c i j = Inr (f64_gt (Score (h a)) (Score (h b)))"
    using assms by (simp add: Less_def index_def Len_def field_Score_def)
  have ji: "Less h c j i = Inr (f64_gt (Score (h b)) (Score (h a)))"
    using assms by (simp add: Less_def index_def Len_def field_Score_def)
  from ij ji f64_eq_not_gt [of "Score (h a)" "Score (h b)"] show ?thesis
    by simp
qed

theorem Less_spec_witness:
  "Less example_matches [Some 0, Some 1, Some 1] 0 1 = Inr True \<and>
   Less example_matches [Some 0, Some 1, Some 1] 1 0 = Inr False \<and>
   Less example_matches [Some 0, Some 1, Some 1] 1 2 = Inr False \<and>
   Less example_matches [Some 0, Some 1, Some 1] 2 1 = Inr False"
proof -
  let ?c = "[Some 0, Some 1, Some 1] :: DocumentMatchCollection"
  have s0: "Score (example_matches 0) = Finite 2"
    and s1: "Score (example_matches (Suc 0)) = Finite 1"
    by (simp_all add: example_matches_def example_match_def)
  have 1: "Less example_matches ?c 0 1 = Inr True"
    using Less_spec [of 0 ?c 1 0 1 example_matches] by (simp add: Len_def s0 s1)
  have 2: "Less example_matches ?c 1 0 = Inr False"
    using Less_spec [of 1 ?c 0 1 0 example_matches] by (simp add: Len_def s0 s1)
  have 3: "Less example_matches ?c 1 2 = Inr False \<and> Less example_matches ?c 2 1 = Inr False"
    using Less_spec [of 1 ?c 2 1 1 example_matches] by (simp add: Len_def s1)
  from 1 2 3 show ?thesis by blast
qed

lemma Collection_loop_filter:
  "Collection_loop p \<sigma> h (filter (\<lambda>entry. entry \<noteq> None) c) s = Collection_loop p \<sigma> h c s"
proof (induction c arbitrary: s)
  case Nil
  show ?case by simp
next
  case (Cons entry c)
  show ?case
  proof (cases entry)
    case None
    with Cons.IH show ?thesis by simp
  next
    case (Some a)
    with Cons.IH show ?thesis by (cases "SizeInBytes p \<sigma> (h a)") simp_all
  qed
qed

lemma Collection_loop_sum:
  "(\<forall>a. Some a \<in> set c \<longrightarrow> (\<exists>n. SizeInBytes p \<sigma> (h a) = Inr n)) \<Longrightarrow>
   Collection_loop p \<sigma> h c s =
   Inr (s + (\<Sum>entry \<leftarrow> filter (\<lambda>entry. entry \<noteq> None) c.
               projr (SizeInBytes p \<sigma> (h (the entry)))))"
proof (induction c arbitrary: s)
  case Nil
  show ?case by simp
next
  case (Cons entry c)
  have rest: "\<forall>a. Some a \<in> set c \<longrightarrow> (\<exists>n. SizeInBytes p \<sigma> (h a) = Inr n)"
    using Cons.prems by simp
  show ?case
  proof (cases entry)
    case None
    with Cons.IH [OF rest] show ?thesis by simp
  next
    case (Some a)
    with Cons.prems obtain n where n: "SizeInBytes p \<sigma> (h a) = Inr n" by auto
    with Some Cons.IH [OF rest, of "s + n"] show ?thesis by simp
  qed
qed

text \<open>
  Claim C10. A nil entry of a collection is skipped, never dereferenced:
  \<open>SizeInBytes()\<close> of the collection is the same with the nil entries removed. When
  \<open>SizeInBytes()\<close> of each match it points to returns, \<open>SizeInBytes()\<close> of the collection
  returns the fixed overhead of \<open>DocumentMatchCollection\<close> plus the sum of those sizes
  over the non-nil entries.
\<close>

theorem Collection_SizeInBytes_spec:
  "Collection_SizeInBytes p \<sigma> h c =
     Collection_SizeInBytes p \<sigma> h (filter (\<lambda>entry. entry \<noteq> None) c) \<and>
   ((\<forall>a. Some a \<in> set c \<longrightarrow> (\<exists>n. SizeInBytes p \<sigma> (h a) = Inr n)) \<longrightarrow>
    Collection_SizeInBytes p \<sigma> h c =
      Inr (HeapOverhead p ''DocumentMatchCollection'' +
           (\<Sum>entry \<leftarrow> filter (\<lambda>entry. entry \<noteq> None) c.
              projr (SizeInBytes p \<sigma> (h (the entry))))))"
  unfolding Collection_SizeInBytes_def
  using Collection_loop_filter [of p \<sigma> h c] Collection_loop_sum [of c p \<sigma> h]
  by simp

lemma SizeInBytes_example_match: "SizeInBytes amd64 example_tlms example_match = Inr 448"
  by (simp add: SizeInBytes_def amd64_def example_tlms_def example_match_def HeapOverhead_def
      init_def len_def elems_def entries_def TermLocationMap_SizeInBytes_def tlm_entries_def
      Location_SizeInBytes_def example_location_def Locations_elems_def)

lemma SizeInBytes_zero_match:
  "SizeInBytes amd64 example_tlms (DocumentMatch_zero\<lparr>Score := Finite 1\<rparr>) = Inr 144"
  by (simp add: SizeInBytes_def amd64_def DocumentMatch_zero_def HeapOverhead_def
      init_def len_def elems_def entries_def nil_slice_def)

theorem Collection_SizeInBytes_spec_witness:
  "Collection_SizeInBytes amd64 example_tlms example_matches [Some 0, None, Some 1] = Inr 616 \<and>
   Collection_SizeInBytes amd64 example_tlms example_matches [None, None] = Inr 24"
proof -
  let ?c = "[Some 0, None, Some 1] :: DocumentMatchCollection"
  have m0: "SizeInBytes amd64 example_tlms (example_matches 0) = Inr 448"
    using SizeInBytes_example_match by (simp add: example_matches_def)
  have m1: "SizeInBytes amd64 example_tlms (example_matches (Suc 0)) = Inr 144"
    using SizeInBytes_zero_match by (simp add: example_matches_def)
  have ov: "HeapOverhead amd64 ''DocumentMatchCollection'' = 24"
    by (simp add: HeapOverhead_def init_def amd64_def)
  have all: "\<forall>a. Some a \<in> set ?c \<longrightarrow> (\<exists>n. SizeInBytes amd64 example_tlms (example_matches a) = Inr n)"
    using m0 m1 by auto
  have 1: "Collection_SizeInBytes amd64 example_tlms example_matches ?c = Inr 616"
    using Collection_SizeInBytes_spec [of amd64 example_tlms example_matches ?c,
        THEN conjunct2, THEN mp, OF all]
    by (simp add: m0 m1 ov)
  have 2: "Collection_SizeInBytes amd64 example_tlms example_matches [None, None] = Inr 24"
    using Collection_SizeInBytes_spec [of amd64 example_tlms example_matches "[None, None]",
        THEN conjunct1]
    by (simp add: Collection_SizeInBytes_def ov)
  from 1 2 show ?thesis by (rule conjI)
qed

subsection \<open>DocumentMatch.AddFieldValue\<close>

lemma AddFieldValue_other:
  "other \<noteq> name \<Longrightarrow>
   lookup (Fields (AddFieldValue dm name v)) other = lookup (Fields dm) other"
  by (simp add: AddFieldValue_def Let_def lookup_def entries_def update_conv'
      split: option.splits)

lemma AddFieldValue_first:
  "lookup (Fields dm) name = None \<Longrightarrow> lookup (Fields (AddFieldValue dm name v)) name = Some v"
  by (simp add: AddFieldValue_def Let_def lookup_def entries_def update_conv'
      split: option.splits)

lemma AddFieldValue_promote:
  "lookup (Fields dm) name = Some x \<Longrightarrow> \<not> is_slice x \<Longrightarrow>
   lookup (Fields (AddFieldValue dm name v)) name = Some (ISlice [x, v])"
  by (cases x)
     (simp_all add: AddFieldValue_def Let_def lookup_def entries_def update_conv'
      split: option.splits)

lemma AddFieldValue_append:
  "lookup (Fields dm) name = Some (ISlice xs) \<Longrightarrow>
   lookup (Fields (AddFieldValue dm name v)) name = Some (ISlice (xs @ [v]))"
  by (simp add: AddFieldValue_def Let_def lookup_def entries_def update_conv'
      split: option.splits)

lemma AddFieldValues_append:
  "lookup (Fields dm) name = Some (ISlice xs) \<Longrightarrow>
   lookup (Fields (AddFieldValues dm name ws)) name = Some (ISlice (xs @ ws))"
proof (induction ws arbitrary: dm xs)
  case Nil
  then show ?case by (simp add: AddFieldValues_def)
next
  case (Cons w ws)
  from Cons.IH [OF AddFieldValue_append [OF Cons.prems, of w]]
  show ?case by (simp add: AddFieldValues_def)
qed

lemma AddFieldValues_other:
  "other \<noteq> name \<Longrightarrow>
   lookup (Fields (AddFieldValues dm name ws)) other = lookup (Fields dm) other"
proof (induction ws arbitrary: dm)
  case Nil
  show ?case by (simp add: AddFieldValues_def)
next
  case (Cons w ws)
  from Cons.IH [OF Cons.prems, of "AddFieldValue dm name w"] AddFieldValue_other [OF Cons.prems]
  show ?case by (simp add: AddFieldValues_def)
qed

text \<open>
  Claim C5. Let the name have no entry in the fields of the match, and let the first
  value be a scalar, not a sequence. After the first \<open>AddFieldValue\<close> the entry is that
  value itself; after the second it is the two-element sequence of the first and the
  second value; every further call appends its value at the end, so after the
  values \<open>v, w, ws\<close> the entry is the sequence \<open>v, w, ws\<close> in the order of the calls.
  The entries of all other names stay as they were.
\<close>

theorem AddFieldValue_spec:
  assumes absent: "lookup (Fields dm) name = None" and scalar: "\<not> is_slice v"
  shows "lookup (Fields (AddFieldValue dm name v)) name = Some v \<and>
         lookup (Fields (AddFieldValue (AddFieldValue dm name v) name w)) name =
           Some (ISlice [v, w]) \<and>
         lookup (Fields (AddFieldValues dm name (v # w # ws))) name =
           Some (ISlice (v # w # ws)) \<and>
         (\<forall>other. other \<noteq> name \<longrightarrow>
            lookup (Fields (AddFieldValues dm name (v # w # ws))) other =
            lookup (Fields dm) other)"
proof -
  have 1: "lookup (Fields (AddFieldValue dm name v)) name = Some v"
    by (rule AddFieldValue_first [OF absent])
  have 2: "lookup (Fields (AddFieldValue (AddFieldValue dm name v) name w)) name =
           Some (ISlice [v, w])"
    by (rule AddFieldValue_promote [OF 1 scalar])
  have "lookup (Fields (AddFieldValues (AddFieldValue (AddFieldValue dm name v) name w) name ws)) name =
        Some (ISlice ([v, w] @ ws))"
    by (rule AddFieldValues_append [OF 2])
  then have 3: "lookup (Fields (AddFieldValues dm name (v # w # ws))) name =
                Some (ISlice (v # w # ws))"
    by (simp add: AddFieldValues_def)
  have 4: "\<forall>other. other \<noteq> name \<longrightarrow>
            lookup (Fields (AddFieldValues dm name (v # w # ws))) other =
            lookup (Fields dm) other"
    by (simp add: AddFieldValues_other)
  from 1 2 3 4 show ?thesis by blast
qed

theorem AddFieldValue_spec_witness:
  "lookup (Fields (AddFieldValue example_match ''tag'' (IString ''x''))) ''tag'' =
     Some (IString ''x'') \<and>
   lookup (Fields (AddFieldValues example_match ''tag''
      [IString ''x'', IString ''y'', IFloat (Finite 3)])) ''tag'' =
     Some (ISlice [IString ''x'', IString ''y'', IFloat (Finite 3)]) \<and>
   lookup (Fields (AddFieldValues example_match ''tag''
      [IString ''x'', IString ''y'', IFloat (Finite 3)])) ''title'' = Some (IString ''t'')"
proof -
  have absent: "lookup (Fields example_match) ''tag'' = None"
    by (simp add: example_match_def lookup_def entries_def)
  have scalar: "\<not> is_slice (IString ''x'')"
    by simp
  have title: "lookup (Fields example_match) ''title'' = Some (IString ''t'')"
    by (simp add: example_match_def lookup_def entries_def)
  note inst = AddFieldValue_spec [OF absent scalar, of "IString ''y''" "[IFloat (Finite 3)]"]
  have 1: "lookup (Fields (AddFieldValue example_match ''tag'' (IString ''x''))) ''tag'' =
     Some (IString ''x'')"
    using inst by blast
  have 2: "lookup (Fields (AddFieldValues example_match ''tag''
      [IString ''x'', IString ''y'', IFloat (Finite 3)])) ''tag'' =
     Some (ISlice [IString ''x'', IString ''y'', IFloat (Finite 3)])"
    using inst by blast
  have "lookup (Fields (AddFieldValues example_match ''tag''
      [IString ''x'', IString ''y'', IFloat (Finite 3)])) ''title'' =
      lookup (Fields example_match) ''title''"
    using inst [THEN conjunct2, THEN conjunct2, THEN conjunct2, THEN spec, of "''title''"]
    by simp
  with title have 3: "lookup (Fields (AddFieldValues example_match ''tag''
      [IString ''x'', IString ''y'', IFloat (Finite 3)])) ''title'' = Some (IString ''t'')"
    by simp
  from 1 2 3 show ?thesis by blast
qed

subsection \<open>The JSON members\<close>

lemma json_members_unfold:
  "json_members dm =
     (if Index dm = [] then [] else [(''index'', F_Index)]) @
     [(''id'', F_ID), (''score'', F_Score)] @
     (if Expl dm = None then [] else [(''explanation'', F_Expl)]) @
     (if entries (Locations dm) = [] then [] else [(''locations'', F_Locations)]) @
     (if entries (Fragments dm) = [] then [] else [(''fragments'', F_Fragments)]) @
     (if len (Sort dm) = 0 then [] else [(''sort'', F_Sort)]) @
     (if entries (Fields dm) = [] then [] else [(''fields'', F_Fields)])"
  by (simp add: json_members_def DocumentMatch_fields_def json_member_def)

text \<open>
  Claim C8. The members of the serialized match have keys among \<open>index\<close>, \<open>id\<close>,
  \<open>score\<close>, \<open>explanation\<close>, \<open>locations\<close>, \<open>fragments\<close>, \<open>sort\<close> and \<open>fields\<close>; \<open>id\<close> and
  \<open>score\<close> are always there, each of the other six exactly when its field is not
  empty; no member carries \<open>IndexInternalID\<close>, \<open>Document\<close> or \<open>HitNumber\<close>.
\<close>

theorem json_keys_spec:
  "set (json_keys dm) \<subseteq>
     {''index'', ''id'', ''score'', ''explanation'', ''locations'', ''fragments'', ''sort'',
      ''fields''} \<and>
   ''id'' \<in> set (json_keys dm) \<and> ''score'' \<in> set (json_keys dm) \<and>
   (''index'' \<in> set (json_keys dm)) = (Index dm \<noteq> []) \<and>
   (''explanation'' \<in> set (json_keys dm)) = (Expl dm \<noteq> None) \<and>
   (''locations'' \<in> set (json_keys dm)) = (entries (Locations dm) \<noteq> []) \<and>
   (''fragments'' \<in> set (json_keys dm)) = (entries (Fragments dm) \<noteq> []) \<and>
   (''sort'' \<in> set (json_keys dm)) = (len (Sort dm) \<noteq> 0) \<and>
   (''fields'' \<in> set (json_keys dm)) = (entries (Fields dm) \<noteq> []) \<and>
   F_IndexInternalID \<notin> snd ` set (json_members dm) \<and>
   F_Document \<notin> snd ` set (json_members dm) \<and>
   F_HitNumber \<notin> snd ` set (json_members dm)"
proof -
  have 1: "set (json_keys dm) \<subseteq>
     {''index'', ''id'', ''score'', ''explanation'', ''locations'', ''fragments'', ''sort'',
      ''fields''}"
    by (simp add: json_keys_def json_members_unfold)
  have 2: "''id'' \<in> set (json_keys dm)" "''score'' \<in> set (json_keys dm)"
    by (simp_all add: json_keys_def json_members_unfold)
  have 3: "(''index'' \<in> set (json_keys dm)) = (Index dm \<noteq> [])"
    by (simp add: json_keys_def json_members_unfold)
  have 4: "(''explanation'' \<in> set (json_keys dm)) = (Expl dm \<noteq> None)"
    by (simp add: json_keys_def json_members_unfold)
  have 5: "(''locations'' \<in> set (json_keys dm)) = (entries (Locations dm) \<noteq> [])"
    by (simp add: json_keys_def json_members_unfold)
  have 6: "(''fragments'' \<in> set (json_keys dm)) = (entries (Fragments dm) \<noteq> [])"
    by (simp add: json_keys_def json_members_unfold)
  have 7: "(''sort'' \<in> set (json_keys dm)) = (len (Sort dm) \<noteq> 0)"
    by (simp add: json_keys_def json_members_unfold)
  have 8: "(''fields'' \<in> set (json_keys dm)) = (entries (Fields dm) \<noteq> [])"
    by (simp add: json_keys_def json_members_unfold)
  have 9: "F_IndexInternalID \<notin> snd ` set (json_members dm)"
    "F_Document \<notin> snd ` set (json_members dm)"
    "F_HitNumber \<notin> snd ` set (json_members dm)"
    by (simp_all add: json_members_unfold)
  from 1 2 3 4 5 6 7 8 9 show ?thesis by blast
qed

subsection \<open>The loops of SizeInBytes as sums\<close>

lemma Locations_loop_acc:
  "Locations_loop p v s =
     (case Locations_loop p v 0 of Inl e \<Rightarrow> Inl e | Inr n \<Rightarrow> Inr (s + n))"
proof (induction v arbitrary: s)
  case Nil
  show ?case by simp
next
  case (Cons entry v)
  show ?case
  proof (cases "Location_SizeInBytes p entry")
    case (Inl e)
    then show ?thesis by simp
  next
    case (Inr n)
    with Cons.IH [of "s + n"] Cons.IH [of n] show ?thesis
      by (simp split: sum.splits)
  qed
qed

lemma TermLocationMap_loop_acc:
  "TermLocationMap_loop p \<sigma> t s =
     (case TermLocationMap_loop p \<sigma> t 0 of Inl e \<Rightarrow> Inl e | Inr n \<Rightarrow> Inr (s + n))"
proof (induction t arbitrary: s)
  case Nil
  show ?case by simp
next
  case (Cons kv t)
  obtain k v where kv: "kv = (k, v)" by (cases kv)
  let ?key = "of_nat (length k) + SizeOfString p + SizeOfSlice p"
  show ?case
  proof (cases "Locations_loop p (Locations_elems \<sigma> v) 0")
    case (Inl e)
    with Locations_loop_acc [of p "Locations_elems \<sigma> v" "s + ?key"]
      Locations_loop_acc [of p "Locations_elems \<sigma> v" "0 + ?key"]
    show ?thesis by (simp add: kv)
  next
    case (Inr n)
    with Locations_loop_acc [of p "Locations_elems \<sigma> v" "s + ?key"]
      Locations_loop_acc [of p "Locations_elems \<sigma> v" "0 + ?key"]
    have "Locations_loop p (Locations_elems \<sigma> v) (s + ?key) = Inr (s + ?key + n)"
      and "Locations_loop p (Locations_elems \<sigma> v) (0 + ?key) = Inr (?key + n)"
      by simp_all
    with Cons.IH [of "s + ?key + n"] Cons.IH [of "?key + n"] show ?thesis
      by (simp add: kv split: sum.splits)
  qed
qed

lemma Locations_field_loop_acc:
  "Locations_field_loop p \<sigma> m s =
     (case Locations_field_loop p \<sigma> m 0 of Inl e \<Rightarrow> Inl e | Inr n \<Rightarrow> Inr (s + n))"
proof (induction m arbitrary: s)
  case Nil
  show ?case by simp
next
  case (Cons kv m)
  obtain k v where kv: "kv = (k, v)" by (cases kv)
  show ?case
  proof (cases "TermLocationMap_SizeInBytes p \<sigma> v")
    case (Inl e)
    then show ?thesis by (simp add: kv)
  next
    case (Inr n)
    with Cons.IH [of "s + (of_nat (length k) + SizeOfString p + n)"]
      Cons.IH [of "of_nat (length k) + SizeOfString p + n"]
    show ?thesis by (simp add: kv split: sum.splits)
  qed
qed

lemma strings_loop_sum:
  "strings_loop p v s = s + (\<Sum>entry \<leftarrow> v. of_nat (length entry) + SizeOfString p)"
  by (induction v arbitrary: s) simp_all

lemma Fragments_loop_sum:
  "Fragments_loop p m s =
     s + (\<Sum>(k, v) \<leftarrow> m. of_nat (length k) + SizeOfString p + SizeOfSlice p +
            (\<Sum>entry \<leftarrow> v. of_nat (length entry) + SizeOfString p))"
  by (induction m arbitrary: s) (auto simp: strings_loop_sum)

lemma Fields_loop_sum:
  "Fields_loop p m s =
     s + (\<Sum>(k, v) \<leftarrow> m. of_nat (length k) + SizeOfString p + SizeOfInterface p)"
  by (induction m arbitrary: s) auto

subsection \<open>DocumentMatch.SizeInBytes and the composite fields\<close>

lemma HeapOverhead_CompositeFields: "HeapOverhead p ''CompositeFields'' = 0"
  by (simp add: HeapOverhead_def init_def)

lemma HeapOverhead_CompositeField:
  "HeapOverhead p ''CompositeField'' = reflect_Size p ''CompositeField'' + SizeOfPointer p"
  by (simp add: HeapOverhead_def init_def)

lemma Document_part_spec:
  "Document_size_spec p d =
     Document_part p d + of_nat (length (doc_CompositeFields d)) * HeapOverhead p ''CompositeField''"
  by (simp add: Document_size_spec_def Document_part_def HeapOverhead_CompositeFields
      sum_list_triv)

text \<open>
  On every match the code computes the size the specification words, less the
  overhead of the composite fields of the attached document.
\<close>

lemma SizeInBytes_spec_less_composites:
  "SizeInBytes_spec p \<sigma> dm =
     (case SizeInBytes p \<sigma> dm of
        Inl e \<Rightarrow> Inl e
      | Inr s \<Rightarrow>
          Inr (s + (case Document dm of
                      None \<Rightarrow> 0
                    | Some d \<Rightarrow>
                        of_nat (length (doc_CompositeFields d)) *
                        HeapOverhead p ''CompositeField'')))"
proof (cases "Locations_field_loop p \<sigma> (entries (Locations dm)) 0")
  case (Inl e)
  with Locations_field_loop_acc [of p \<sigma> "entries (Locations dm)"]
  show ?thesis
    by (simp add: SizeInBytes_spec_def SizeInBytes_def Let_def)
next
  case (Inr n)
  with Locations_field_loop_acc [of p \<sigma> "entries (Locations dm)"]
  have loop: "Locations_field_loop p \<sigma> (entries (Locations dm)) s = Inr (s + n)" for s
    by simp
  show ?thesis
    by (simp add: SizeInBytes_spec_def SizeInBytes_def Let_def Inr loop strings_loop_sum
        Fragments_loop_sum Fields_loop_sum Document_part_spec
        split: option.splits)
qed

text \<open>
  Claim C2. \<open>SizeInBytes()\<close> reads the table of overheads at the key
  \<^verbatim>\<open>CompositeFields\<close>, which \<^verbatim>\<open>init\<close> never fills (it fills \<^verbatim>\<open>CompositeField\<close>), so the
  composite fields of an attached document add nothing. On a 64-bit target the match
  with one composite field has size 217, where the claim gives 289.
\<close>

theorem SizeInBytes_composite_fields:
  "SizeInBytes amd64 \<sigma> match_with_composite = Inr 217 \<and>
   SizeInBytes_spec amd64 \<sigma> match_with_composite = Inr 289 \<and>
   HeapOverhead amd64 ''CompositeFields'' = 0 \<and>
   HeapOverhead amd64 ''CompositeField'' = 72"
proof -
  have 1: "SizeInBytes amd64 \<sigma> match_with_composite = Inr 217"
    by (simp add: SizeInBytes_def amd64_def match_with_composite_def DocumentMatch_zero_def
        HeapOverhead_def init_def len_def elems_def entries_def nil_slice_def Document_part_def)
  have 2: "HeapOverhead amd64 ''CompositeField'' = 72"
    by (simp add: HeapOverhead_def init_def amd64_def)
  have 3: "SizeInBytes_spec amd64 \<sigma> match_with_composite = Inr 289"
    unfolding SizeInBytes_spec_less_composites 1 2
    by (simp add: match_with_composite_def)
  from 1 2 3 HeapOverhead_CompositeFields [of amd64] show ?thesis by blast
qed

subsection \<open>TermLocationMap.AddLocation\<close>


lemma sint_add_of_int:
  fixes x :: "'w::len word"
  assumes "0 \<le> k" and "sint x + k < 2 ^ (LENGTH('w) - 1)"
  shows "sint (x + word_of_int k) = sint x + k"
proof -
  have "x + word_of_int k = word_of_int (sint x + k)"
    by simp
  moreover have "- (2 ^ (LENGTH('w) - 1)) \<le> sint x + k"
    using sint_ge [of x] assms(1) by linarith
  ultimately show ?thesis
    using assms(2) by (simp only: sint_sbintrunc' signed_take_bit_int_eq_self)
qed

lemma take_Suc_drop_update:
  "k + n < length xs \<Longrightarrow> take (Suc n) (drop k (xs[k + n := x])) = take n (drop k xs) @ [x]"
proof -
  assume len: "k + n < length xs"
  have "drop k (xs[k + n := x]) = (drop k xs)[n := x]"
    by (simp add: drop_update_swap)
  moreover from len have "n < length (drop k xs)" by simp
  ultimately show ?thesis
    by (simp add: take_Suc_conv_app_nth)
qed

lemma take_drop_update_outside:
  "\<not> (k \<le> i \<and> i < k + n) \<Longrightarrow> take n (drop k (xs[i := x])) = take n (drop k xs)"
proof (cases "i < k")
  case True
  then show ?thesis by simp
next
  case False
  assume "\<not> (k \<le> i \<and> i < k + n)"
  with False have "k \<le> i" and "n \<le> i - k" by simp_all
  then show ?thesis by (simp add: drop_update_swap)
qed

lemma Locations_loop_snoc:
  "Locations_loop p v s = Inr n \<Longrightarrow> Location_SizeInBytes p entry = Inr d \<Longrightarrow>
   Locations_loop p (v @ [entry]) s = Inr (n + d)"
proof (induction v arbitrary: s)
  case Nil
  then show ?case by simp
next
  case (Cons x v)
  then show ?case by (cases "Location_SizeInBytes p x") simp_all
qed

text \<open>The slice that \<open>append\<close> returns holds the old elements and the new one.\<close>

lemma append_new_elems:
  assumes "slice_ok \<sigma> s" and "append_new \<sigma> s x = (s', \<sigma>')"
  shows "Locations_elems \<sigma>' s' = Locations_elems \<sigma> s @ [x]"
proof -
  have "length (Locations_elems \<sigma> s) = ls_len s"
    using assms(1) by (auto simp: Locations_elems_def slice_ok_def split: option.splits)
  with assms(2) show ?thesis
    by (auto simp: append_new_def Let_def Locations_elems_def)
qed

lemma append_slice_elems:
  assumes ok: "slice_ok \<sigma> s" and app: "append_slice \<sigma> s x = (s', \<sigma>')"
  shows "Locations_elems \<sigma>' s' = Locations_elems \<sigma> s @ [x]"
proof (cases "ls_array s")
  case None
  with app have "append_new \<sigma> s x = (s', \<sigma>')" by (simp add: append_slice_def)
  from append_new_elems [OF ok this] show ?thesis .
next
  case (Some b)
  show ?thesis
  proof (cases "ls_len s < ls_cap s")
    case False
    with Some app have "append_new \<sigma> s x = (s', \<sigma>')" by (simp add: append_slice_def)
    from append_new_elems [OF ok this] show ?thesis .
  next
    case True
    with ok Some have "ls_off s + ls_len s < length (arrays \<sigma> b)"
      by (simp add: slice_ok_def)
    from take_Suc_drop_update [OF this, of x] Some True app show ?thesis
      by (auto simp: append_slice_def Locations_elems_def)
  qed
qed

text \<open>A slice that views none of the written cells keeps its elements.\<close>

lemma append_slice_frame:
  assumes app: "append_slice \<sigma> s x = (s', \<sigma>')" and r: "append_unshared \<sigma> s [r]"
  shows "Locations_elems \<sigma>' r = Locations_elems \<sigma> r"
proof (cases "ls_array s \<noteq> None \<and> ls_len s < ls_cap s")
  case True
  then obtain b where b: "ls_array s = Some b" and spare: "ls_len s < ls_cap s" by auto
  from r b spare have nv: "\<not> views r b (ls_off s + ls_len s)"
    by (simp add: append_unshared_def)
  from app b spare
  have arr: "arrays \<sigma>' = (arrays \<sigma>)(b := (arrays \<sigma> b)[ls_off s + ls_len s := x])"
    by (auto simp: append_slice_def)
  show ?thesis
  proof (cases "ls_array r = Some b")
    case True
    with nv have "\<not> (ls_off r \<le> ls_off s + ls_len s \<and> ls_off s + ls_len s < ls_off r + ls_len r)"
      by (simp add: views_def)
    from take_drop_update_outside [OF this] True arr show ?thesis
      by (simp add: Locations_elems_def)
  next
    case False
    with arr show ?thesis
      by (auto simp: Locations_elems_def split: option.splits)
  qed
next
  case False
  with app have new: "append_new \<sigma> s x = (s', \<sigma>')"
    by (auto simp: append_slice_def split: option.splits)
  from False r have "ls_array r \<noteq> Some (next_array \<sigma>)"
    by (auto simp: append_unshared_def split: option.splits if_splits)
  with new show ?thesis
    by (auto simp: append_new_def Let_def Locations_elems_def split: option.splits)
qed

lemma append_unshared_member:
  "append_unshared \<sigma> s rs \<Longrightarrow> r \<in> set rs \<Longrightarrow> append_unshared \<sigma> s [r]"
  by (simp add: append_unshared_def list_all_iff)

lemma append_slice_tables:
  "append_slice \<sigma> s x = (s', \<sigma>') \<Longrightarrow> tables \<sigma>' = tables \<sigma>"
  by (auto simp: append_slice_def append_new_def Let_def split: option.splits if_splits)

lemma Locations_elems_tables_update:
  "Locations_elems (\<sigma>\<lparr>tables := T\<rparr>) r = Locations_elems \<sigma> r"
  by (simp add: Locations_elems_def split: option.splits)

text \<open>The size of a table depends on the heap through the elements of its slices.\<close>

lemma TermLocationMap_loop_cong:
  "\<forall>kr \<in> set t. Locations_elems \<sigma>' (snd kr) = Locations_elems \<sigma> (snd kr) \<Longrightarrow>
   TermLocationMap_loop p \<sigma>' t s = TermLocationMap_loop p \<sigma> t s"
proof (induction t arbitrary: s)
  case Nil
  show ?case by simp
next
  case (Cons kv t)
  obtain k v where kv: "kv = (k, v)" by (cases kv)
  from Cons.prems have v: "Locations_elems \<sigma>' v = Locations_elems \<sigma> v"
    and rest: "\<forall>kr \<in> set t. Locations_elems \<sigma>' (snd kr) = Locations_elems \<sigma> (snd kr)"
    by (simp_all add: kv)
  show ?case
    by (simp add: kv v Cons.IH [OF rest] split: sum.splits)
qed

text \<open>
  The table after \<^verbatim>\<open>t[term] = append(t[term], location)\<close>, when the other slices keep
  their elements: its size grows by the size of the location and, when the term is
  new, by the overhead of the new key.
\<close>

lemma TermLocationMap_loop_update:
  assumes "TermLocationMap_loop p \<sigma> t s = Inr n"
    and same: "\<forall>kr \<in> set t. Locations_elems \<sigma>' (snd kr) = Locations_elems \<sigma> (snd kr)"
    and new: "Locations_elems \<sigma>' s' =
              (case map_of t term of None \<Rightarrow> [] | Some r \<Rightarrow> Locations_elems \<sigma> r) @ [entry]"
    and d: "Location_SizeInBytes p entry = Inr d"
  shows "TermLocationMap_loop p \<sigma>' (AList.update term s' t) s =
         Inr (n + d +
              (if term \<in> fst ` set t then 0
               else of_nat (length term) + SizeOfString p + SizeOfSlice p))"
  using assms(1) same new
proof (induction t arbitrary: s n)
  case Nil
  with d show ?case by (simp add: ac_simps)
next
  case (Cons kv t)
  obtain k v where kv: "kv = (k, v)" by (cases kv)
  let ?key = "of_nat (length k) + SizeOfString p + SizeOfSlice p"
  from Cons.prems(1) obtain n1 where
    n1: "Locations_loop p (Locations_elems \<sigma> v) (s + ?key) = Inr n1"
    and rest: "TermLocationMap_loop p \<sigma> t n1 = Inr n"
    by (auto simp: kv split: sum.splits)
  from Cons.prems(2) have v: "Locations_elems \<sigma>' v = Locations_elems \<sigma> v"
    and same_t: "\<forall>kr \<in> set t. Locations_elems \<sigma>' (snd kr) = Locations_elems \<sigma> (snd kr)"
    by (simp_all add: kv)
  show ?case
  proof (cases "k = term")
    case True
    with Cons.prems(3) have "Locations_elems \<sigma>' s' = Locations_elems \<sigma> v @ [entry]"
      by (simp add: kv)
    with Locations_loop_snoc [OF n1 d]
    have "Locations_loop p (Locations_elems \<sigma>' s') (s + ?key) = Inr (n1 + d)"
      by simp
    moreover from rest TermLocationMap_loop_acc [of p \<sigma> t n1]
      TermLocationMap_loop_acc [of p \<sigma> t "n1 + d"]
    have "TermLocationMap_loop p \<sigma> t (n1 + d) = Inr (n + d)"
      by (simp add: ac_simps split: sum.splits)
    with TermLocationMap_loop_cong [OF same_t, of p "n1 + d"]
    have "TermLocationMap_loop p \<sigma>' t (n1 + d) = Inr (n + d)"
      by simp
    ultimately show ?thesis
      using True by (simp add: kv)
  next
    case False
    with Cons.prems(3) have new_t: "Locations_elems \<sigma>' s' =
        (case map_of t term of None \<Rightarrow> [] | Some r \<Rightarrow> Locations_elems \<sigma> r) @ [entry]"
      by (simp add: kv)
    from Cons.IH [OF rest same_t new_t] n1 False show ?thesis
      by (simp add: kv v)
  qed
qed

lemma of_int_AddLocation_growth:
  fixes p :: "'w::len platform"
  shows "(word_of_int (AddLocation_growth p \<sigma> a term location) :: 'w word) =
         HeapOverhead p ''Location'' + of_nat (length (ArrayPositions location)) * SizeOfUint64 p +
         (if term \<in> fst ` set (tables \<sigma> a) then 0
          else of_nat (length term) + SizeOfString p + SizeOfSlice p)"
  by (simp add: AddLocation_growth_def)

lemma AddLocation_growth_pos:
  assumes "platform_ok p"
  shows "0 < AddLocation_growth p \<sigma> a term location"
proof -
  from assms have "0 \<le> int (length (ArrayPositions location)) * sint (SizeOfUint64 p)"
    by (simp add: platform_ok_def)
  moreover from assms have "0 < sint (HeapOverhead p ''Location'')"
    and "0 \<le> int (length term) + sint (SizeOfString p) + sint (SizeOfSlice p)"
    by (simp_all add: platform_ok_def)
  ultimately show ?thesis
    by (simp add: AddLocation_growth_def)
qed

text \<open>
  \<^verbatim>\<open>AddLocation\<close> on the table at \<open>a\<close>, when the slices \<open>rs\<close>, those of the table among
  them, view none of the written cells: the size of the table grows, the other
  tables stay, and the slices \<open>rs\<close> keep their elements.
\<close>

lemma AddLocation_size:
  fixes p :: "'w::len platform"
  assumes st: "TermLocationMap_SizeInBytes p \<sigma> (Some a) = Inr st"
    and within: "slice_ok \<sigma> (tlm_index \<sigma> (Some a) term)"
    and unshared: "append_unshared \<sigma> (tlm_index \<sigma> (Some a) term) rs"
    and own: "snd ` set (tables \<sigma> a) \<subseteq> set rs"
  shows "\<exists>\<sigma>'. AddLocation \<sigma> (Some a) term (Some location) = Inr \<sigma>' \<and>
           TermLocationMap_SizeInBytes p \<sigma>' (Some a) =
             Inr (st + word_of_int (AddLocation_growth p \<sigma> a term location)) \<and>
           (\<forall>b. b \<noteq> a \<longrightarrow> tables \<sigma>' b = tables \<sigma> b) \<and>
           (\<forall>r \<in> set rs. Locations_elems \<sigma>' r = Locations_elems \<sigma> r)"
proof -
  let ?s = "tlm_index \<sigma> (Some a) term"
  obtain s' \<sigma>1 where app: "append_slice \<sigma> ?s (Some location) = (s', \<sigma>1)"
    by (cases "append_slice \<sigma> ?s (Some location)")
  let ?\<sigma>' = "\<sigma>1\<lparr>tables := (tables \<sigma>1)(a := AList.update term s' (tables \<sigma>1 a))\<rparr>"
  have add: "AddLocation \<sigma> (Some a) term (Some location) = Inr ?\<sigma>'"
    by (simp add: AddLocation_def app)
  have tabs: "tables \<sigma>1 = tables \<sigma>"
    by (rule append_slice_tables [OF app])
  have frame: "Locations_elems ?\<sigma>' r = Locations_elems \<sigma> r" if "r \<in> set rs" for r
    using append_slice_frame [OF app append_unshared_member [OF unshared that]]
    by (simp add: Locations_elems_tables_update)
  have same: "\<forall>kr \<in> set (tables \<sigma> a). Locations_elems ?\<sigma>' (snd kr) = Locations_elems \<sigma> (snd kr)"
    using own frame by auto
  have "Locations_elems \<sigma> ?s =
        (case map_of (tables \<sigma> a) term of None \<Rightarrow> [] | Some r \<Rightarrow> Locations_elems \<sigma> r)"
    by (simp add: tlm_index_def tlm_entries_def nil_Locations_def Locations_elems_def
        split: option.splits)
  with append_slice_elems [OF within app]
  have new: "Locations_elems ?\<sigma>' s' =
        (case map_of (tables \<sigma> a) term of None \<Rightarrow> [] | Some r \<Rightarrow> Locations_elems \<sigma> r) @
        [Some location]"
    by (simp add: Locations_elems_tables_update)
  have d: "Location_SizeInBytes p (Some location) =
           Inr (HeapOverhead p ''Location'' +
                of_nat (length (ArrayPositions location)) * SizeOfUint64 p)"
    by (simp add: Location_SizeInBytes_def)
  from st have "TermLocationMap_loop p \<sigma> (tables \<sigma> a) (HeapOverhead p ''TermLocationMap'') = Inr st"
    by (simp add: TermLocationMap_SizeInBytes_def tlm_entries_def)
  from TermLocationMap_loop_update [OF this same new d]
  have "TermLocationMap_SizeInBytes p ?\<sigma>' (Some a) =
        Inr (st + word_of_int (AddLocation_growth p \<sigma> a term location))"
    by (simp add: TermLocationMap_SizeInBytes_def tlm_entries_def tabs
        of_int_AddLocation_growth add.assoc)
  moreover have "\<forall>b. b \<noteq> a \<longrightarrow> tables ?\<sigma>' b = tables \<sigma> b"
    by (simp add: tabs)
  ultimately show ?thesis
    using add frame by blast
qed

lemma Locations_field_loop_member:
  "Locations_field_loop p \<sigma> m s = Inr n \<Longrightarrow> (k, v) \<in> set m \<Longrightarrow>
   \<exists>x. TermLocationMap_SizeInBytes p \<sigma> v = Inr x"
proof (induction m arbitrary: s)
  case Nil
  then show ?case by simp
next
  case (Cons kv m)
  obtain k' v' where kv: "kv = (k', v')" by (cases kv)
  from Cons.prems(1) obtain x where
    x: "TermLocationMap_SizeInBytes p \<sigma> v' = Inr x"
    and rest: "Locations_field_loop p \<sigma> m (s + (of_nat (length k') + SizeOfString p + x)) = Inr n"
    by (auto simp: kv split: sum.splits)
  from Cons.prems(2) consider "(k, v) = (k', v')" | "(k, v) \<in> set m"
    by (auto simp: kv)
  then show ?case
  proof cases
    case 1
    with x show ?thesis by auto
  next
    case 2
    from Cons.IH [OF rest 2] show ?thesis .
  qed
qed

text \<open>
  A write that grows the size of the table at \<open>a\<close> by \<open>d\<close> and leaves the sizes of the
  other tables grows the sum of the loop over \<open>Locations\<close> by \<open>d\<close> for each field that
  holds this table.
\<close>

lemma Locations_field_loop_frame:
  assumes others: "\<forall>kv \<in> set m. snd kv \<noteq> Some a \<longrightarrow>
        TermLocationMap_SizeInBytes p \<sigma>' (snd kv) = TermLocationMap_SizeInBytes p \<sigma> (snd kv)"
    and before: "TermLocationMap_SizeInBytes p \<sigma> (Some a) = Inr st"
    and after: "TermLocationMap_SizeInBytes p \<sigma>' (Some a) = Inr (st + d)"
    and loop: "Locations_field_loop p \<sigma> m s = Inr n"
  shows "Locations_field_loop p \<sigma>' m s =
         Inr (n + of_nat (length (filter (\<lambda>kv. snd kv = Some a) m)) * d)"
  using loop others
proof (induction m arbitrary: s n)
  case Nil
  then show ?case by simp
next
  case (Cons kv m)
  obtain k v where kv: "kv = (k, v)" by (cases kv)
  from Cons.prems(1) obtain x where
    x: "TermLocationMap_SizeInBytes p \<sigma> v = Inr x"
    and rest: "Locations_field_loop p \<sigma> m (s + (of_nat (length k) + SizeOfString p + x)) = Inr n"
    by (auto simp: kv split: sum.splits)
  from Cons.prems(2) have others_m: "\<forall>kv \<in> set m. snd kv \<noteq> Some a \<longrightarrow>
        TermLocationMap_SizeInBytes p \<sigma>' (snd kv) = TermLocationMap_SizeInBytes p \<sigma> (snd kv)"
    by simp
  let ?cnt = "of_nat (length (filter (\<lambda>kv. snd kv = Some a) m))"
  from Cons.IH [OF rest others_m]
  have IH: "Locations_field_loop p \<sigma>' m (s + (of_nat (length k) + SizeOfString p + x)) =
            Inr (n + ?cnt * d)" .
  show ?case
  proof (cases "v = Some a")
    case True
    with x before have xs: "x = st" by simp
    from IH Locations_field_loop_acc [of p \<sigma>' m "s + (of_nat (length k) + SizeOfString p + x)"]
      Locations_field_loop_acc [of p \<sigma>' m "s + (of_nat (length k) + SizeOfString p + (st + d))"]
    have "Locations_field_loop p \<sigma>' m (s + (of_nat (length k) + SizeOfString p + (st + d))) =
          Inr (n + ?cnt * d + d)"
      by (simp add: xs ac_simps split: sum.splits)
    with True after show ?thesis
      by (simp add: kv algebra_simps)
  next
    case False
    with Cons.prems(2) x have "TermLocationMap_SizeInBytes p \<sigma>' v = Inr x"
      by (simp add: kv)
    with False IH show ?thesis
      by (simp add: kv)
  qed
qed

text \<open>The size of a match is the sum of the loop over \<open>Locations\<close> and a rest that
  does not read the heap of tables.\<close>

lemma SizeInBytes_Locations:
  fixes p :: "'w::len platform"
  shows "\<exists>r :: 'w word. \<forall>\<sigma>. SizeInBytes p \<sigma> dm =
     (case Locations_field_loop p \<sigma> (entries (Locations dm)) 0 of
        Inl e \<Rightarrow> Inl e
      | Inr n \<Rightarrow> Inr (n + r))"
proof -
  define s1 where "s1 =
    (case Expl dm of
       None \<Rightarrow>
         HeapOverhead p ''DocumentMatch'' + of_nat (length (Index dm)) + of_nat (length (ID dm)) +
         of_nat (len (IndexInternalID dm))
     | Some expl \<Rightarrow>
         HeapOverhead p ''DocumentMatch'' + of_nat (length (Index dm)) + of_nat (length (ID dm)) +
         of_nat (len (IndexInternalID dm)) + of_int (Explanation_SizeInBytes expl))"
  define rest where "rest = (\<lambda>s2.
    (case Document dm of
       None \<Rightarrow>
         Fields_loop p (entries (Fields dm))
           (strings_loop p (elems (Sort dm)) (Fragments_loop p (entries (Fragments dm)) s2))
     | Some d \<Rightarrow>
         Fields_loop p (entries (Fields dm))
           (strings_loop p (elems (Sort dm)) (Fragments_loop p (entries (Fragments dm)) s2)) +
         Document_part p d))"
  have unfold: "SizeInBytes p \<sigma> dm =
     (case Locations_field_loop p \<sigma> (entries (Locations dm)) s1 of
        Inl e \<Rightarrow> Inl e
      | Inr s2 \<Rightarrow> Inr (rest s2))" for \<sigma>
    unfolding SizeInBytes_def s1_def rest_def Let_def by (rule refl)
  have rest_add: "rest s2 = s2 + rest 0" for s2
    by (simp add: rest_def strings_loop_sum Fragments_loop_sum Fields_loop_sum
        split: option.splits)
  have "SizeInBytes p \<sigma> dm =
     (case Locations_field_loop p \<sigma> (entries (Locations dm)) 0 of
        Inl e \<Rightarrow> Inl e
      | Inr n \<Rightarrow> Inr (n + (s1 + rest 0)))" for \<sigma>
  proof (cases "Locations_field_loop p \<sigma> (entries (Locations dm)) 0")
    case (Inl e)
    with Locations_field_loop_acc [of p \<sigma> "entries (Locations dm)" s1]
    show ?thesis
      by (simp add: unfold)
  next
    case (Inr n)
    with Locations_field_loop_acc [of p \<sigma> "entries (Locations dm)" s1]
    have "Locations_field_loop p \<sigma> (entries (Locations dm)) s1 = Inr (s1 + n)"
      by simp
    with Inr rest_add [of "s1 + n"] show ?thesis
      by (simp add: unfold ac_simps)
  qed
  then show ?thesis by blast
qed

lemma held_slices_member:
  "(k, t) \<in> set (entries (Locations dm)) \<Longrightarrow> kr \<in> set (tlm_entries \<sigma> t) \<Longrightarrow>
   snd kr \<in> set (held_slices \<sigma> dm)"
  by (force simp: held_slices_def)

text \<open>
  Claim C4, amended. Let the table \<open>t\<close> at \<open>a\<close> be held under a field of the
  \<open>Locations\<close> of a match whose \<open>SizeInBytes()\<close> returns, let the slice \<open>t[term]\<close> lie
  within its array, and let no slice of the tables that the match holds have among
  its elements a cell that \<open>append\<close> writes. Then \<open>AddLocation\<close> on \<open>t\<close> with the term
  and a location returns; \<open>SizeInBytes()\<close> of \<open>t\<close> becomes the old value plus the
  growth (the size of the location and, for a new term, the overhead of the key),
  and \<open>SizeInBytes()\<close> of the match the old value plus the growth once for each
  field that holds \<open>t\<close>, both in the arithmetic of \<^verbatim>\<open>int\<close>. The growth is positive, and
  each size is strictly greater than before when its sum stays within \<^verbatim>\<open>int\<close>.
\<close>

theorem AddLocation_increases:
  fixes p :: "'w::len platform"
  assumes ok: "platform_ok p"
    and held: "(field, Some a) \<in> set (entries (Locations dm))"
    and st: "TermLocationMap_SizeInBytes p \<sigma> (Some a) = Inr st"
    and sd: "SizeInBytes p \<sigma> dm = Inr sd"
    and within: "slice_ok \<sigma> (tlm_index \<sigma> (Some a) term)"
    and unshared: "append_unshared \<sigma> (tlm_index \<sigma> (Some a) term) (held_slices \<sigma> dm)"
  shows "\<exists>\<sigma>' st' sd'.
           AddLocation \<sigma> (Some a) term (Some location) = Inr \<sigma>' \<and>
           TermLocationMap_SizeInBytes p \<sigma>' (Some a) = Inr st' \<and>
           SizeInBytes p \<sigma>' dm = Inr sd' \<and>
           0 < AddLocation_growth p \<sigma> a term location \<and> 0 < holders dm a \<and>
           st' = st + word_of_int (AddLocation_growth p \<sigma> a term location) \<and>
           sd' = sd + word_of_int (int (holders dm a) * AddLocation_growth p \<sigma> a term location) \<and>
           (sint st + AddLocation_growth p \<sigma> a term location < 2 ^ (LENGTH('w) - 1) \<longrightarrow>
              sint st' = sint st + AddLocation_growth p \<sigma> a term location \<and>
              sint st < sint st') \<and>
           (sint sd + int (holders dm a) * AddLocation_growth p \<sigma> a term location
              < 2 ^ (LENGTH('w) - 1) \<longrightarrow>
              sint sd' = sint sd + int (holders dm a) * AddLocation_growth p \<sigma> a term location \<and>
              sint sd < sint sd')"
proof -
  let ?m = "entries (Locations dm)"
  let ?g = "AddLocation_growth p \<sigma> a term location"
  let ?c = "holders dm a"
  from SizeInBytes_Locations [of p dm] obtain r where
    r: "\<And>\<sigma>. SizeInBytes p \<sigma> dm =
          (case Locations_field_loop p \<sigma> ?m 0 of Inl e \<Rightarrow> Inl e | Inr n \<Rightarrow> Inr (n + r))"
    by blast
  from sd r [of \<sigma>] obtain n where
    n: "Locations_field_loop p \<sigma> ?m 0 = Inr n" and sdn: "sd = n + r"
    by (auto split: sum.splits)
  have own: "snd ` set (tables \<sigma> a) \<subseteq> set (held_slices \<sigma> dm)"
    using held_slices_member [OF held, of _ \<sigma>] by (auto simp: tlm_entries_def)
  from AddLocation_size [OF st within unshared own, of location] obtain \<sigma>' where
    add: "AddLocation \<sigma> (Some a) term (Some location) = Inr \<sigma>'"
    and st': "TermLocationMap_SizeInBytes p \<sigma>' (Some a) = Inr (st + word_of_int ?g)"
    and tabs: "\<forall>b. b \<noteq> a \<longrightarrow> tables \<sigma>' b = tables \<sigma> b"
    and elems: "\<forall>r \<in> set (held_slices \<sigma> dm). Locations_elems \<sigma>' r = Locations_elems \<sigma> r"
    by blast
  have others: "\<forall>kv \<in> set ?m. snd kv \<noteq> Some a \<longrightarrow>
        TermLocationMap_SizeInBytes p \<sigma>' (snd kv) = TermLocationMap_SizeInBytes p \<sigma> (snd kv)"
  proof (intro ballI impI)
    fix kv
    assume kv: "kv \<in> set ?m" and other: "snd kv \<noteq> Some a"
    obtain k t where kt: "kv = (k, t)" by (cases kv)
    show "TermLocationMap_SizeInBytes p \<sigma>' (snd kv) = TermLocationMap_SizeInBytes p \<sigma> (snd kv)"
    proof (cases t)
      case None
      then show ?thesis
        by (simp add: kt TermLocationMap_SizeInBytes_def tlm_entries_def)
    next
      case (Some b)
      with other kt tabs have tb: "tables \<sigma>' b = tables \<sigma> b" by simp
      have "\<forall>kr \<in> set (tables \<sigma> b). Locations_elems \<sigma>' (snd kr) = Locations_elems \<sigma> (snd kr)"
        using held_slices_member [of k "Some b" dm _ \<sigma>] kv kt Some elems
        by (auto simp: tlm_entries_def)
      from TermLocationMap_loop_cong [OF this] tb Some show ?thesis
        by (simp add: kt TermLocationMap_SizeInBytes_def tlm_entries_def)
    qed
  qed
  from Locations_field_loop_frame [OF others st st' n]
  have "Locations_field_loop p \<sigma>' ?m 0 = Inr (n + of_nat ?c * word_of_int ?g)"
    by (simp add: holders_def)
  with r [of \<sigma>'] have sd': "SizeInBytes p \<sigma>' dm = Inr (sd + word_of_int (int ?c * ?g))"
    by (simp add: sdn ac_simps)
  have g: "0 < ?g"
    by (rule AddLocation_growth_pos [OF ok])
  from held have "filter (\<lambda>kv. snd kv = Some a) ?m \<noteq> []"
    by (force simp: filter_empty_conv)
  then have c: "0 < ?c"
    by (simp add: holders_def)
  with g have cg: "0 < int ?c * ?g" by simp
  have table: "sint (st + word_of_int ?g) = sint st + ?g \<and> sint st < sint (st + word_of_int ?g)"
    if "sint st + ?g < 2 ^ (LENGTH('w) - 1)"
    using sint_add_of_int [of ?g st] g that by simp
  have match: "sint (sd + word_of_int (int ?c * ?g)) = sint sd + int ?c * ?g \<and>
               sint sd < sint (sd + word_of_int (int ?c * ?g))"
    if "sint sd + int ?c * ?g < 2 ^ (LENGTH('w) - 1)"
    using sint_add_of_int [of "int ?c * ?g" sd] cg that by simp
  from add st' sd' g c table match show ?thesis
    by blast
qed

theorem AddLocation_increases_witness:
  "\<exists>\<sigma>' st' sd'.
     AddLocation example_tlms (Some 0) ''go'' (Some example_location) = Inr \<sigma>' \<and>
     TermLocationMap_SizeInBytes amd64 example_tlms (Some 0) = Inr 122 \<and>
     TermLocationMap_SizeInBytes amd64 \<sigma>' (Some 0) = Inr st' \<and> sint st' = 194 \<and>
     SizeInBytes amd64 example_tlms example_match = Inr 448 \<and>
     SizeInBytes amd64 \<sigma>' example_match = Inr sd' \<and> sint sd' = 520"
proof -
  have ok: "platform_ok amd64"
    by (simp add: platform_ok_def amd64_def HeapOverhead_def init_def)
  have held: "(''body'', Some 0) \<in> set (entries (Locations example_match))"
    by (simp add: example_match_def entries_def)
  have sd: "SizeInBytes amd64 example_tlms example_match = Inr 448"
    by (simp add: SizeInBytes_def amd64_def example_tlms_def example_match_def HeapOverhead_def
      init_def len_def elems_def entries_def TermLocationMap_SizeInBytes_def tlm_entries_def
      Location_SizeInBytes_def example_location_def Locations_elems_def)
  have st: "TermLocationMap_SizeInBytes amd64 example_tlms (Some 0) = Inr 122"
    by (simp add: amd64_def example_tlms_def HeapOverhead_def init_def
      TermLocationMap_SizeInBytes_def tlm_entries_def Location_SizeInBytes_def
      example_location_def Locations_elems_def)
  have idx: "tlm_index example_tlms (Some 0) ''go'' =
             \<lparr>ls_array = Some 0, ls_off = 0, ls_len = 1, ls_cap = 1\<rparr>"
    by (simp add: tlm_index_def tlm_entries_def example_tlms_def)
  have within: "slice_ok example_tlms (tlm_index example_tlms (Some 0) ''go'')"
    unfolding idx by (simp add: slice_ok_def example_tlms_def)
  have hs: "held_slices example_tlms example_match =
            [\<lparr>ls_array = Some 0, ls_off = 0, ls_len = 1, ls_cap = 1\<rparr>]"
    by (simp add: held_slices_def example_match_def entries_def tlm_entries_def example_tlms_def)
  have unshared: "append_unshared example_tlms (tlm_index example_tlms (Some 0) ''go'')
                    (held_slices example_tlms example_match)"
    unfolding idx hs by (simp add: append_unshared_def example_tlms_def)
  have g: "AddLocation_growth amd64 example_tlms 0 ''go'' example_location = 72"
    by (simp add: AddLocation_growth_def amd64_def example_tlms_def example_location_def
        HeapOverhead_def init_def)
  have c: "holders example_match 0 = 1"
    by (simp add: holders_def example_match_def entries_def)
  from AddLocation_increases [OF ok held st sd within unshared, of example_location]
  obtain \<sigma>' st' sd' where
    add: "AddLocation example_tlms (Some 0) ''go'' (Some example_location) = Inr \<sigma>'"
    and st': "TermLocationMap_SizeInBytes amd64 \<sigma>' (Some 0) = Inr st'"
    and sd': "SizeInBytes amd64 \<sigma>' example_match = Inr sd'"
    and t: "sint (122 :: 64 word) + AddLocation_growth amd64 example_tlms 0 ''go'' example_location
              < 2 ^ (LENGTH(64) - 1) \<longrightarrow>
            sint st' = sint (122 :: 64 word) +
              AddLocation_growth amd64 example_tlms 0 ''go'' example_location \<and>
            sint (122 :: 64 word) < sint st'"
    and m: "sint (448 :: 64 word) +
              int (holders example_match 0) *
              AddLocation_growth amd64 example_tlms 0 ''go'' example_location
              < 2 ^ (LENGTH(64) - 1) \<longrightarrow>
            sint sd' = sint (448 :: 64 word) +
              int (holders example_match 0) *
              AddLocation_growth amd64 example_tlms 0 ''go'' example_location \<and>
            sint (448 :: 64 word) < sint sd'"
    by blast
  from t have "sint st' = 194" by (simp add: g)
  moreover from m have "sint sd' = 520" by (simp add: g c)
  ultimately show ?thesis
    using add st st' sd sd' by blast
qed

text \<open>
  The claim as stated fails when two slices of the table view one array: the
  appended location overwrites an element of the other slice, and both sizes fall.
\<close>

theorem AddLocation_aliased_counterexample:
  "AddLocation aliased_tlms (Some 0) ''x'' (Some small_location) = Inr aliased_tlms_added \<and>
   TermLocationMap_SizeInBytes amd64 aliased_tlms (Some 0) = Inr 362 \<and>
   TermLocationMap_SizeInBytes amd64 aliased_tlms_added (Some 0) = Inr 346 \<and>
   SizeInBytes amd64 aliased_tlms aliased_match = Inr 526 \<and>
   SizeInBytes amd64 aliased_tlms_added aliased_match = Inr 510 \<and>
   sint (346 :: 64 word) < sint (362 :: 64 word) \<and>
   sint (510 :: 64 word) < sint (526 :: 64 word)"
proof -
  have 1: "AddLocation aliased_tlms (Some 0) ''x'' (Some small_location) = Inr aliased_tlms_added"
    by (simp add: AddLocation_def append_slice_def tlm_index_def tlm_entries_def
        aliased_tlms_def aliased_tlms_added_def numeral_2_eq_2)
  have 2: "TermLocationMap_SizeInBytes amd64 aliased_tlms (Some 0) = Inr 362"
    by (simp add: amd64_def aliased_tlms_def HeapOverhead_def init_def
      TermLocationMap_SizeInBytes_def tlm_entries_def Location_SizeInBytes_def
      example_location_def big_location_def Locations_elems_def)
  have 3: "TermLocationMap_SizeInBytes amd64 aliased_tlms_added (Some 0) = Inr 346"
    by (simp add: amd64_def aliased_tlms_added_def HeapOverhead_def init_def
      TermLocationMap_SizeInBytes_def tlm_entries_def Location_SizeInBytes_def
      example_location_def small_location_def Locations_elems_def)
  have 4: "SizeInBytes amd64 aliased_tlms aliased_match = Inr 526"
    by (simp add: SizeInBytes_def amd64_def aliased_tlms_def aliased_match_def
      DocumentMatch_zero_def HeapOverhead_def init_def len_def elems_def entries_def nil_slice_def
      TermLocationMap_SizeInBytes_def tlm_entries_def Location_SizeInBytes_def
      example_location_def big_location_def Locations_elems_def)
  have 5: "SizeInBytes amd64 aliased_tlms_added aliased_match = Inr 510"
    by (simp add: SizeInBytes_def amd64_def aliased_tlms_added_def aliased_match_def
      DocumentMatch_zero_def HeapOverhead_def init_def len_def elems_def entries_def nil_slice_def
      TermLocationMap_SizeInBytes_def tlm_entries_def Location_SizeInBytes_def
      example_location_def small_location_def Locations_elems_def)
  have 6: "sint (346 :: 64 word) < sint (362 :: 64 word)"
    "sint (510 :: 64 word) < sint (526 :: 64 word)"
    by simp_all
  from 1 2 3 4 5 6 show ?thesis by blast
qed

end
